theory Spec2Isabelle
  imports Main
begin

section \<open>Rate limiter (src/lib/rate-limit.ts)\<close>

text \<open>
  JavaScript numbers that hold integers (counts, millisecond clocks, user ids) are
  modelled as \<open>int\<close>. The module-level \<open>Map\<close> is a partial function from keys to
  entries; \<open>checkRateLimit\<close> takes the store and the value of \<open>Date.now()\<close> and
  returns its result together with the store it leaves behind.
\<close>

record RateLimitEntry =
  count :: int
  resetTime :: int

record RateLimitConfig =
  maxRequests :: int
  windowSeconds :: int
  prefix :: "string option"

record RateLimitResult =
  success :: bool
  remaining :: int
  resetIn :: int
  limit :: int

type_synonym rateLimitStore = "string \<rightharpoonup> RateLimitEntry"

text \<open>\<open>Math.ceil(ms / 1000)\<close> on an integer number of milliseconds.\<close>

definition ceil_seconds :: "int \<Rightarrow> int" where
  "ceil_seconds ms = - ((- ms) div 1000)"

text \<open>The key \<open>`${prefix}:${identifier}`\<close>, with the default \<open>prefix = ""\<close>.\<close>

definition store_key :: "RateLimitConfig \<Rightarrow> string \<Rightarrow> string" where
  "store_key config identifier =
     (case prefix config of None \<Rightarrow> [] | Some p \<Rightarrow> p) @ '':'' @ identifier"

definition checkRateLimit ::
  "rateLimitStore \<Rightarrow> int \<Rightarrow> string \<Rightarrow> RateLimitConfig \<Rightarrow> RateLimitResult \<times> rateLimitStore"
where
  "checkRateLimit store now identifier config =
     (let key = store_key config identifier;
          windowMs = windowSeconds config * 1000
      in case store key of
           None \<Rightarrow>
             (\<lparr>success = True, remaining = maxRequests config - 1,
               resetIn = windowSeconds config, limit = maxRequests config\<rparr>,
              store(key \<mapsto> \<lparr>count = 1, resetTime = now + windowMs\<rparr>))
         | Some entry \<Rightarrow>
             if now > resetTime entry then
               (\<lparr>success = True, remaining = maxRequests config - 1,
                 resetIn = windowSeconds config, limit = maxRequests config\<rparr>,
                store(key \<mapsto> \<lparr>count = 1, resetTime = now + windowMs\<rparr>))
             else if count entry \<ge> maxRequests config then
               (\<lparr>success = False, remaining = 0,
                 resetIn = ceil_seconds (resetTime entry - now), limit = maxRequests config\<rparr>,
                store)
             else
               (\<lparr>success = True, remaining = maxRequests config - (count entry + 1),
                 resetIn = ceil_seconds (resetTime entry - now), limit = maxRequests config\<rparr>,
                store(key \<mapsto> entry\<lparr>count := count entry + 1\<rparr>)))"

text \<open>
  The callback of \<open>setInterval\<close>: every entry whose window has passed is deleted.
\<close>

definition cleanupExpired :: "int \<Rightarrow> rateLimitStore \<Rightarrow> rateLimitStore" where
  "cleanupExpired now store =
     (\<lambda>key. case store key of
              None \<Rightarrow> None
            | Some entry \<Rightarrow> if now > resetTime entry then None else Some entry)"

text \<open>
  The store is touched by nothing else, so a run of the module is a list of events:
  a call of \<open>checkRateLimit\<close> or a firing of the cleanup timer.
\<close>

datatype event = Check int string RateLimitConfig | Cleanup int

fun step :: "rateLimitStore \<Rightarrow> event \<Rightarrow> rateLimitStore" where
  "step store (Check now identifier config) = snd (checkRateLimit store now identifier config)"
| "step store (Cleanup now) = cleanupExpired now store"

definition run :: "rateLimitStore \<Rightarrow> event list \<Rightarrow> rateLimitStore" where
  "run store evs = foldl step store evs"

text \<open>
  Every call of the run that addresses a key passes the limit \<open>lim\<close> assigns to that key.
\<close>

fun uses_limit :: "(string \<Rightarrow> int) \<Rightarrow> event \<Rightarrow> bool" where
  "uses_limit lim (Check now identifier config) =
     (maxRequests config = lim (store_key config identifier))"
| "uses_limit lim (Cleanup now) = True"

text \<open>The login limiter of the source: 5 attempts per 15 minutes.\<close>

definition loginRateLimit :: RateLimitConfig where
  "loginRateLimit = \<lparr>maxRequests = 5, windowSeconds = 15 * 60, prefix = Some ''login''\<rparr>"

section \<open>JavaScript values and library functions used by the auth module\<close>

text \<open>
  A JavaScript string is modelled by its UTF-8 bytes, an Isabelle \<open>string\<close>; a
  \<open>Buffer\<close> is a \<open>string\<close> too. A value that may be \<open>undefined\<close> or \<open>null\<close> is an
  \<open>option\<close>. A function that can throw returns \<open>js_error + 'a\<close>, with \<open>Inl\<close> for the
  thrown error; \<open>try { \<dots> } catch { \<dots> }\<close> is \<open>try_catch\<close>.
\<close>

datatype js_error = TypeError | RangeError | JsonWebTokenError | TokenExpiredError

definition try_catch :: "('e + 'a) \<Rightarrow> ('e \<Rightarrow> 'f + 'a) \<Rightarrow> 'f + 'a" where
  "try_catch body handler = (case body of Inl e \<Rightarrow> handler e | Inr v \<Rightarrow> Inr v)"

text \<open>String conversion of a possibly undefined string, as in a template literal.\<close>

definition ToString :: "string option \<Rightarrow> string" where
  "ToString v = (case v of None \<Rightarrow> ''undefined'' | Some s \<Rightarrow> s)"

text \<open>Truthiness of a possibly undefined string, and \<open>a || b\<close> on such values.\<close>

definition truthy :: "string option \<Rightarrow> bool" where
  "truthy v = (case v of None \<Rightarrow> False | Some s \<Rightarrow> s \<noteq> [])"

definition js_or :: "string option \<Rightarrow> string option \<Rightarrow> string option" where
  "js_or a b = (if truthy a then a else b)"

definition startsWith :: "string \<Rightarrow> string \<Rightarrow> bool" where
  "startsWith s p = (take (length p) s = p)"

text \<open>\<open>s.split(sep)\<close> for a separator of one character: never an empty array.\<close>

fun js_split :: "char \<Rightarrow> string \<Rightarrow> string list" where
  "js_split sep [] = [[]]"
| "js_split sep (c # cs) =
     (if c = sep then [] # js_split sep cs
      else (case js_split sep cs of [] \<Rightarrow> [[c]] | f # fs \<Rightarrow> (c # f) # fs))"

text \<open>Array destructuring and indexing: a missing element is \<open>undefined\<close>.\<close>

definition nth_opt :: "'a list \<Rightarrow> nat \<Rightarrow> 'a option" where
  "nth_opt xs i = (if i < length xs then Some (xs ! i) else None)"

text \<open>\<open>s.replace(pat, rep)\<close> with a string pattern: the first occurrence only.\<close>

fun js_replace :: "string \<Rightarrow> string \<Rightarrow> string \<Rightarrow> string" where
  "js_replace pat rep [] = (if pat = [] then rep else [])"
| "js_replace pat rep (c # cs) =
     (if startsWith (c # cs) pat then rep @ drop (length pat) (c # cs)
      else c # js_replace pat rep cs)"

text \<open>
  \<open>toUpperCase\<close> on the ASCII letters; a request method is an HTTP token, which has no
  other letters.
\<close>

definition ascii_upper :: "char \<Rightarrow> char" where
  "ascii_upper c =
     (if 97 \<le> (of_char c :: nat) \<and> (of_char c :: nat) \<le> 122
      then char_of (of_char c - 32 :: nat) else c)"

definition toUpperCase :: "string \<Rightarrow> string" where
  "toUpperCase s = map ascii_upper s"

subsection \<open>Numbers and strings\<close>

text \<open>
  The decimal string of an integer, as a template literal prints a number. JavaScript
  prints an integer this way below \<open>10^21\<close>; the numbers printed here are user ids and
  millisecond clocks.
\<close>

fun digit_chars :: "nat \<Rightarrow> string" where
  "digit_chars n =
     (if n < 10 then [char_of (48 + n)]
      else digit_chars (n div 10) @ [char_of (48 + n mod 10)])"

declare digit_chars.simps [simp del]

definition Number_toString :: "int \<Rightarrow> string" where
  "Number_toString n =
     (if n < 0 then CHR ''-'' # digit_chars (nat (- n)) else digit_chars (nat n))"

text \<open>\<open>Number.isSafeInteger\<close>: the integers a JavaScript number holds exactly.\<close>

definition isSafeInteger :: "int \<Rightarrow> bool" where
  "isSafeInteger n = (\<bar>n\<bar> \<le> 2 ^ 53 - 1)"

text \<open>
  The white space and line terminators that \<open>parseInt\<close> skips, in UTF-8: TAB, LF, VT, FF,
  CR, SP, U+00A0, U+1680, U+2000 to U+200A, U+2028, U+2029, U+202F, U+205F, U+3000, U+FEFF.
\<close>

definition js_whitespace :: "string list" where
  "js_whitespace =
     [[CHR 0x09], [CHR 0x0A], [CHR 0x0B], [CHR 0x0C], [CHR 0x0D], [CHR 0x20],
      [CHR 0xC2, CHR 0xA0], [CHR 0xE1, CHR 0x9A, CHR 0x80],
      [CHR 0xE2, CHR 0x80, CHR 0x80], [CHR 0xE2, CHR 0x80, CHR 0x81],
      [CHR 0xE2, CHR 0x80, CHR 0x82], [CHR 0xE2, CHR 0x80, CHR 0x83],
      [CHR 0xE2, CHR 0x80, CHR 0x84], [CHR 0xE2, CHR 0x80, CHR 0x85],
      [CHR 0xE2, CHR 0x80, CHR 0x86], [CHR 0xE2, CHR 0x80, CHR 0x87],
      [CHR 0xE2, CHR 0x80, CHR 0x88], [CHR 0xE2, CHR 0x80, CHR 0x89],
      [CHR 0xE2, CHR 0x80, CHR 0x8A], [CHR 0xE2, CHR 0x80, CHR 0xA8],
      [CHR 0xE2, CHR 0x80, CHR 0xA9], [CHR 0xE2, CHR 0x80, CHR 0xAF],
      [CHR 0xE2, CHR 0x81, CHR 0x9F], [CHR 0xE3, CHR 0x80, CHR 0x80],
      [CHR 0xEF, CHR 0xBB, CHR 0xBF]]"

text \<open>The number of bytes of the white space character \<open>s\<close> starts with, or 0.\<close>

definition whitespace_at :: "string \<Rightarrow> nat" where
  "whitespace_at s =
     (case filter (\<lambda>w. take (length w) s = w) js_whitespace of
        [] \<Rightarrow> 0 | w # ws \<Rightarrow> length w)"

function trimStart :: "string \<Rightarrow> string" where
  "trimStart s = (if whitespace_at s = 0 then s else trimStart (drop (whitespace_at s) s))"
  by pat_completeness auto
termination
proof (relation "measure length")
  show "wf (measure length)" by simp
next
  fix s :: string
  assume pos: "whitespace_at s \<noteq> 0"
  have "s \<noteq> []"
  proof
    assume "s = []"
    then have "filter (\<lambda>w. take (length w) s = w) js_whitespace = []"
      by (simp add: js_whitespace_def)
    then have "whitespace_at s = 0"
      by (simp add: whitespace_at_def)
    with pos show False by simp
  qed
  with pos show "(drop (whitespace_at s) s, s) \<in> measure length" by simp
qed

declare trimStart.simps [simp del]

text \<open>The value of a character as a digit, up to radix 36.\<close>

definition digit_value :: "char \<Rightarrow> nat option" where
  "digit_value c =
     (let n = (of_char c :: nat)
      in if 48 \<le> n \<and> n \<le> 57 then Some (n - 48)
         else if 97 \<le> n \<and> n \<le> 122 then Some (n - 87)
         else if 65 \<le> n \<and> n \<le> 90 then Some (n - 55)
         else None)"

definition radix_digit :: "nat \<Rightarrow> char \<Rightarrow> bool" where
  "radix_digit R c = (case digit_value c of None \<Rightarrow> False | Some d \<Rightarrow> d < R)"

definition digits_value :: "nat \<Rightarrow> string \<Rightarrow> nat" where
  "digits_value R Z =
     foldl (\<lambda>acc c. case digit_value c of None \<Rightarrow> acc | Some d \<Rightarrow> acc * R + d) 0 Z"

text \<open>
  \<open>parseInt(string)\<close> without a radix, step by step as ECMAScript gives it: trim the
  start, read a sign, read a \<open>0x\<close> prefix (radix 16, else 10), take the longest run of
  digits; no digit gives \<open>NaN\<close>, which is \<open>None\<close> here.
\<close>

definition parseInt :: "string \<Rightarrow> int option" where
  "parseInt inputString =
     (let S = trimStart inputString;
          sign = (case S of c # r \<Rightarrow> if c = CHR ''-'' then - 1 else 1 | [] \<Rightarrow> (1::int));
          S = (case S of c # r \<Rightarrow> if c = CHR ''-'' \<or> c = CHR ''+'' then r else S | [] \<Rightarrow> S);
          hex = (take 2 S = ''0x'' \<or> take 2 S = ''0X'');
          R = (if hex then 16 else 10);
          S = (if hex then drop 2 S else S);
          Z = takeWhile (radix_digit R) S
      in if Z = [] then None else Some (sign * int (digits_value R Z)))"

subsection \<open>Buffers: base64, UTF-8, hex\<close>

text \<open>\<open>buf.toString("base64")\<close>: three bytes give four characters, padded with \<open>=\<close>.\<close>

definition base64_char :: "nat \<Rightarrow> char" where
  "base64_char i =
     (if i < 26 then char_of (65 + i)
      else if i < 52 then char_of (71 + i)
      else if i < 62 then char_of (i - 4)
      else if i = 62 then CHR ''+'' else CHR ''/'')"

fun base64_groups :: "nat list \<Rightarrow> string" where
  "base64_groups (a # b # c # rest) =
     [base64_char (a div 4), base64_char ((a mod 4) * 16 + b div 16),
      base64_char ((b mod 16) * 4 + c div 64), base64_char (c mod 64)] @ base64_groups rest"
| "base64_groups [a, b] =
     [base64_char (a div 4), base64_char ((a mod 4) * 16 + b div 16),
      base64_char ((b mod 16) * 4), CHR ''='']"
| "base64_groups [a] =
     [base64_char (a div 4), base64_char ((a mod 4) * 16), CHR ''='', CHR ''='']"
| "base64_groups [] = []"

definition Buffer_toString_base64 :: "string \<Rightarrow> string" where
  "Buffer_toString_base64 buf = base64_groups (map of_char buf)"

text \<open>
  \<open>Buffer.from(s, "base64")\<close> never throws: it reads the standard and the URL-safe
  alphabet, skips every other character, and stops at the first \<open>=\<close>. A last group of
  two or three characters gives one or two bytes.
\<close>

definition unbase64 :: "char \<Rightarrow> nat option" where
  "unbase64 c =
     (let n = (of_char c :: nat)
      in if 65 \<le> n \<and> n \<le> 90 then Some (n - 65)
         else if 97 \<le> n \<and> n \<le> 122 then Some (n - 71)
         else if 48 \<le> n \<and> n \<le> 57 then Some (n + 4)
         else if c = CHR ''+'' \<or> c = CHR ''-'' then Some 62
         else if c = CHR ''/'' \<or> c = CHR ''_'' then Some 63
         else None)"

definition sextets_of :: "string \<Rightarrow> nat list" where
  "sextets_of s = List.map_filter unbase64 (takeWhile (\<lambda>c. c \<noteq> CHR ''='') s)"

fun unbase64_groups :: "nat list \<Rightarrow> nat list" where
  "unbase64_groups (a # b # c # d # rest) =
     [(a * 4 + b div 16) mod 256, (b * 16 + c div 4) mod 256, (c * 64 + d) mod 256]
       @ unbase64_groups rest"
| "unbase64_groups [a, b, c] = [(a * 4 + b div 16) mod 256, (b * 16 + c div 4) mod 256]"
| "unbase64_groups [a, b] = [(a * 4 + b div 16) mod 256]"
| "unbase64_groups [a] = []"
| "unbase64_groups [] = []"

definition Buffer_from_base64 :: "string \<Rightarrow> string" where
  "Buffer_from_base64 s = map char_of (unbase64_groups (sextets_of s))"

text \<open>
  \<open>buf.toString("utf-8")\<close>: well-formed sequences are kept, and every maximal ill-formed
  part becomes U+FFFD, as the WHATWG decoder does.
\<close>

definition replacement :: string where
  "replacement = [CHR 0xEF, CHR 0xBF, CHR 0xBD]"

definition in_range :: "nat \<Rightarrow> nat \<Rightarrow> char \<Rightarrow> bool" where
  "in_range lo hi c = (lo \<le> of_char c \<and> (of_char c :: nat) \<le> hi)"

fun utf8_decode :: "string \<Rightarrow> string" where
  "utf8_decode [] = []"
| "utf8_decode (b # bs) =
     (if in_range 0x00 0x7F b then b # utf8_decode bs
      else if in_range 0xC2 0xDF b then
        (case bs of
           c # r1 \<Rightarrow> if in_range 0x80 0xBF c then b # c # utf8_decode r1
                     else replacement @ utf8_decode bs
         | [] \<Rightarrow> replacement)
      else if in_range 0xE0 0xEF b then
        (case bs of
           c # r1 \<Rightarrow>
             if in_range (if b = CHR 0xE0 then 0xA0 else 0x80)
                         (if b = CHR 0xED then 0x9F else 0xBF) c
             then (case r1 of
                     d # r2 \<Rightarrow> if in_range 0x80 0xBF d then b # c # d # utf8_decode r2
                               else replacement @ utf8_decode r1
                   | [] \<Rightarrow> replacement)
             else replacement @ utf8_decode bs
         | [] \<Rightarrow> replacement)
      else if in_range 0xF0 0xF4 b then
        (case bs of
           c # r1 \<Rightarrow>
             if in_range (if b = CHR 0xF0 then 0x90 else 0x80)
                         (if b = CHR 0xF4 then 0x8F else 0xBF) c
             then (case r1 of
                     d # r2 \<Rightarrow>
                       if in_range 0x80 0xBF d
                       then (case r2 of
                               e # r3 \<Rightarrow> if in_range 0x80 0xBF e
                                         then b # c # d # e # utf8_decode r3
                                         else replacement @ utf8_decode r2
                             | [] \<Rightarrow> replacement)
                       else replacement @ utf8_decode r1
                   | [] \<Rightarrow> replacement)
             else replacement @ utf8_decode bs
         | [] \<Rightarrow> replacement)
      else replacement @ utf8_decode bs)"

text \<open>\<open>hmac.digest("hex")\<close>: two lower-case hex digits for every byte of the digest.\<close>

definition hex_digit :: "nat \<Rightarrow> char" where
  "hex_digit d = (if d < 10 then char_of (48 + d) else char_of (87 + d))"

definition digest_hex :: "string \<Rightarrow> string" where
  "digest_hex bytes =
     concat (map (\<lambda>b. [hex_digit (of_char b div 16), hex_digit (of_char b mod 16)]) bytes)"

text \<open>
  \<open>Buffer.from(v)\<close> throws a \<open>TypeError\<close> on \<open>undefined\<close>; \<open>crypto.timingSafeEqual\<close>
  throws a \<open>RangeError\<close> when the byte lengths differ.
\<close>

definition Buffer_from :: "string option \<Rightarrow> js_error + string" where
  "Buffer_from v = (case v of None \<Rightarrow> Inl TypeError | Some s \<Rightarrow> Inr s)"

definition timingSafeEqual :: "string \<Rightarrow> string \<Rightarrow> js_error + bool" where
  "timingSafeEqual a b = (if length a \<noteq> length b then Inl RangeError else Inr (a = b))"

section \<open>The auth module (lib/auth.ts)\<close>

record TokenPayload =
  id' :: int
  email :: string
  username :: string
  is_host :: bool

text \<open>What \<open>jwt.verify\<close> returns: the payload with the registered claims.\<close>

record JwtPayload = TokenPayload +
  iat :: int
  exp :: "int option"

text \<open>
  What the module takes from outside: the two secrets of the environment, HMAC-SHA256
  (key, message, raw digest), and the compact serialisation of jsonwebtoken: \<open>jws_sign\<close>
  writes claims into a signed token, \<open>jws_open\<close> checks the signature of a token and reads
  its claims, and gives \<open>None\<close> for a token that is malformed or not signed by the key.
\<close>

record env =
  hmac_sha256 :: "string \<Rightarrow> string \<Rightarrow> string"
  CSRF_SECRET :: string
  JWT_SECRET :: string
  jws_sign :: "JwtPayload \<Rightarrow> string \<Rightarrow> string"
  jws_open :: "string \<Rightarrow> string \<Rightarrow> JwtPayload option"

text \<open>
  \<open>jwt.sign(payload, secret, {expiresIn})\<close> at clock \<open>now\<close> (milliseconds) adds
  \<open>iat = floor(now / 1000)\<close> and \<open>exp = iat + expiresIn\<close> (seconds).
  \<open>jwt.verify(token, secret)\<close> throws when the token is empty, when the signature or
  the format is wrong, and when \<open>floor(now / 1000) \<ge> exp\<close>.
\<close>

definition jwt_claims :: "int \<Rightarrow> TokenPayload \<Rightarrow> int \<Rightarrow> JwtPayload" where
  "jwt_claims now payload expiresIn =
     \<lparr>id' = id' payload, email = email payload, username = username payload,
      is_host = is_host payload,
      iat = now div 1000, exp = Some (now div 1000 + expiresIn)\<rparr>"

definition jwt_sign :: "env \<Rightarrow> int \<Rightarrow> TokenPayload \<Rightarrow> string \<Rightarrow> int \<Rightarrow> string" where
  "jwt_sign E now payload secret expiresIn =
     jws_sign E (jwt_claims now payload expiresIn) secret"

definition jwt_verify :: "env \<Rightarrow> int \<Rightarrow> string \<Rightarrow> string \<Rightarrow> js_error + JwtPayload" where
  "jwt_verify E now token secret =
     (if token = [] then Inl JsonWebTokenError
      else case jws_open E token secret of
             None \<Rightarrow> Inl JsonWebTokenError
           | Some payload \<Rightarrow>
               (case exp payload of
                  None \<Rightarrow> Inr payload
                | Some e \<Rightarrow> if now div 1000 \<ge> e then Inl TokenExpiredError else Inr payload))"

text \<open>The argument of \<open>generateToken\<close>; \<open>is_host\<close> is optional there.\<close>

record user =
  user_id :: int
  user_email :: string
  user_username :: string
  user_is_host :: "bool option"

definition token_payload :: "user \<Rightarrow> TokenPayload" where
  "token_payload u =
     \<lparr>id' = user_id u, email = user_email u, username = user_username u,
      is_host = (case user_is_host u of None \<Rightarrow> False | Some b \<Rightarrow> b)\<rparr>"

definition generateToken :: "env \<Rightarrow> int \<Rightarrow> user \<Rightarrow> string" where
  "generateToken E now u =
     jwt_sign E now (token_payload u) (JWT_SECRET E) (7 * 24 * 60 * 60)"

definition verifyToken :: "env \<Rightarrow> int \<Rightarrow> string \<Rightarrow> js_error + JwtPayload option" where
  "verifyToken E now token =
     try_catch
       (case jwt_verify E now token (JWT_SECRET E) of
          Inl e \<Rightarrow> Inl e
        | Inr decoded \<Rightarrow> Inr (Some decoded))
       (\<lambda>e. Inr None)"

text \<open>
  A request, as far as the module reads it. Header names are in lower case, as
  \<open>Headers.get\<close> looks them up.
\<close>

record request =
  method' :: string
  pathname :: string
  cookies :: "string \<rightharpoonup> string"
  headers :: "string \<rightharpoonup> string"

text \<open>
  After \<open>startsWith("Bearer ")\<close> the split at spaces has at least two parts, so
  \<open>split(" ")[1]\<close> is a string.
\<close>

definition getUserFromRequest :: "env \<Rightarrow> int \<Rightarrow> request \<Rightarrow> js_error + JwtPayload option" where
  "getUserFromRequest E now request =
     (let cookieToken = cookies request ''auth_token''
      in case (if truthy cookieToken then cookieToken else None) of
           Some token \<Rightarrow> verifyToken E now token
         | None \<Rightarrow>
             (let authHeader = headers request ''authorization''
              in case authHeader of
                   None \<Rightarrow> Inr None
                 | Some h \<Rightarrow>
                     if startsWith h ''Bearer ''
                     then (case js_split CHR '' '' h of
                             b # token # rest \<Rightarrow> verifyToken E now token
                           | _ \<Rightarrow> Inr None)
                     else Inr None))"

subsection \<open>CSRF tokens\<close>

definition generateCsrfToken :: "env \<Rightarrow> int \<Rightarrow> int \<Rightarrow> string" where
  "generateCsrfToken E now userId =
     (let timestamp = now;
          data = Number_toString userId @ '':'' @ Number_toString timestamp;
          signature = digest_hex (hmac_sha256 E (CSRF_SECRET E) data)
      in Buffer_toString_base64 (data @ '':'' @ signature))"

text \<open>\<open>Buffer.from(token, "base64").toString("utf-8").split(":")\<close>\<close>

definition decoded_fields :: "string \<Rightarrow> string list" where
  "decoded_fields token = js_split CHR '':'' (utf8_decode (Buffer_from_base64 token))"

text \<open>
  The \<open>try\<close> block of \<open>verifyCsrfToken\<close>. The destructuring takes the first three
  fields; \<open>NaN !== userId\<close> holds for every \<open>userId\<close>, and \<open>NaN > x\<close> for none.
\<close>

definition verifyCsrfToken_try :: "env \<Rightarrow> int \<Rightarrow> string \<Rightarrow> int \<Rightarrow> js_error + bool" where
  "verifyCsrfToken_try E now token userId =
     (let fields = decoded_fields token;
          tokenUserId = nth_opt fields 0;
          timestamp = nth_opt fields 1;
          signature = nth_opt fields 2
      in if parseInt (ToString tokenUserId) \<noteq> Some userId then Inr False
         else if (case parseInt (ToString timestamp) of
                    None \<Rightarrow> False
                  | Some t \<Rightarrow> now - t > 24 * 60 * 60 * 1000) then Inr False
         else
           (let expectedSignature =
                  digest_hex (hmac_sha256 E (CSRF_SECRET E)
                    (ToString tokenUserId @ '':'' @ ToString timestamp))
            in case Buffer_from signature of
                 Inl e \<Rightarrow> Inl e
               | Inr sig \<Rightarrow> timingSafeEqual sig expectedSignature))"

definition verifyCsrfToken :: "env \<Rightarrow> int \<Rightarrow> string \<Rightarrow> int \<Rightarrow> js_error + bool" where
  "verifyCsrfToken E now token userId =
     try_catch (verifyCsrfToken_try E now token userId) (\<lambda>e. Inr False)"

section \<open>The guards (lib/csrf.ts and the middleware)\<close>

text \<open>
  The responses: those of \<open>NextResponse\<close>, with the message and the status of a JSON
  answer, and \<open>errorResponse(message, status)\<close> of lib/api-response.
\<close>

datatype response =
  NextResponse_next
| NextResponse_redirect string
| NextResponse_json string int
| errorResponse string int

definition validateCsrf :: "env \<Rightarrow> int \<Rightarrow> request \<Rightarrow> js_error + response option" where
  "validateCsrf E now request =
     (let method = toUpperCase (method' request)
      in if method \<notin> set [''POST'', ''PUT'', ''DELETE'', ''PATCH''] then Inr None
         else case getUserFromRequest E now request of
                Inl e \<Rightarrow> Inl e
              | Inr None \<Rightarrow> Inr None
              | Inr (Some user) \<Rightarrow>
                  (let csrfToken = js_or (headers request ''x-csrf-token'')
                                         (cookies request ''csrf_token'')
                   in case (if truthy csrfToken then csrfToken else None) of
                        None \<Rightarrow> Inr (Some (errorResponse ''CSRF token missing'' 403))
                      | Some tok \<Rightarrow>
                          (case verifyCsrfToken E now tok (id' user) of
                             Inl e \<Rightarrow> Inl e
                           | Inr ok \<Rightarrow>
                               if \<not> ok then Inr (Some (errorResponse ''Invalid CSRF token'' 403))
                               else Inr None)))"

definition publicPaths :: "string list" where
  "publicPaths =
     [''/login'', ''/register'', ''/forgot-password'', ''/api/auth/login'',
      ''/api/auth/logout'', ''/api/auth/send-otp'', ''/api/auth/verify-otp'',
      ''/api/auth/forgot-password'', ''/api/auth/reset-password'']"

definition csrfExemptPaths :: "string list" where
  "csrfExemptPaths =
     [''/api/auth/login'', ''/api/auth/send-otp'', ''/api/auth/verify-otp'',
      ''/api/auth/forgot-password'', ''/api/auth/reset-password'']"

text \<open>\<open>paths.some((path) => name === path || name.startsWith(path + "/"))\<close>\<close>

definition path_in :: "string list \<Rightarrow> string \<Rightarrow> bool" where
  "path_in paths name =
     list_ex (\<lambda>path. name = path \<or> startsWith name (path @ ''/'')) paths"

definition middleware :: "request \<Rightarrow> response" where
  "middleware request =
     (let pathname = pathname request;
          isPublicPath = path_in publicPaths pathname;
          cookieToken = cookies request ''auth_token'';
          headerToken = map_option (js_replace ''Bearer '' []) (headers request ''authorization'');
          token = js_or cookieToken headerToken
      in if isPublicPath \<and> truthy token \<and> pathname \<noteq> ''/api/auth/login''
            \<and> pathname \<noteq> ''/api/auth/logout'' \<and> \<not> startsWith pathname ''/api/''
         then NextResponse_redirect ''/dashboard''
         else if \<not> isPublicPath \<and> \<not> truthy token
         then (if startsWith pathname ''/api/'' then NextResponse_json ''Unauthorized'' 401
               else NextResponse_redirect ''/login'')
         else if startsWith pathname ''/api/'' \<and> truthy token
              \<and> toUpperCase (method' request) \<in> set [''POST'', ''PUT'', ''DELETE'', ''PATCH'']
              \<and> \<not> path_in csrfExemptPaths pathname
              \<and> \<not> truthy (headers request ''x-csrf-token'')
         then NextResponse_json ''CSRF token required'' 403
         else NextResponse_next)"

section \<open>A concrete environment for examples\<close>

text \<open>
  A stand-in for the keyed hash (32 bytes from a checksum of key and message) and for the
  token serialisation (one fixed token for one fixed set of claims). The theorems below
  hold for every environment; this one serves where an example needs concrete values.
  A second one, \<open>serial_env\<close> further down, has a serialisation that writes and reads
  every set of claims.
\<close>

definition demo_claims :: JwtPayload where
  "demo_claims =
     \<lparr>id' = 5, email = ''a@b.c'', username = ''alice'', is_host = False,
      iat = 1, exp = Some 604801\<rparr>"

definition demo_env :: env where
  "demo_env =
     \<lparr>hmac_sha256 = (\<lambda>key msg.
        map (\<lambda>i. char_of ((sum_list (map of_char (key @ msg)) + i) mod 256 :: nat)) [0..<32]),
      CSRF_SECRET = ''csrf-secret'',
      JWT_SECRET = ''jwt-secret'',
      jws_sign = (\<lambda>payload secret. ''header.payload.signature''),
      jws_open = (\<lambda>token secret.
         if token = ''header.payload.signature'' \<and> secret = ''jwt-secret''
         then Some demo_claims else None)\<rparr>"

definition demo_user :: user where
  "demo_user =
     \<lparr>user_id = 5, user_email = ''a@b.c'', user_username = ''alice'', user_is_host = None\<rparr>"

text \<open>The hex digest of \<open>5:1000\<close> in this environment.\<close>

definition demo_signature :: string where
  "demo_signature = ''9192939495969798999a9b9c9d9e9fa0a1a2a3a4a5a6a7a8a9aaabacadaeafb0''"

text \<open>
  The CSRF token issued to user 5 at clock 1000, and the token whose decoded text is that
  of the first with \<open>:extra\<close> appended.
\<close>

definition demo_csrf_token :: string where
  "demo_csrf_token =
     ''NToxMDAwOjkxOTI5Mzk0OTU5Njk3OTg5OTlhOWI5YzlkOWU5ZmEwYTFhMmEzYTRhNWE2YTdhOGE5YWFhYmFjYWRhZWFmYjA=''"

definition demo_csrf_token_extra :: string where
  "demo_csrf_token_extra =
     ''NToxMDAwOjkxOTI5Mzk0OTU5Njk3OTg5OTlhOWI5YzlkOWU5ZmEwYTFhMmEzYTRhNWE2YTdhOGE5YWFhYmFjYWRhZWFmYjA6ZXh0cmE=''"

text \<open>
  A second environment whose token serialisation really writes and reads claims: the
  integers in decimal and the strings with their length in front, each number closed by a
  colon, then a dot and the hex digest of the stand-in hash over that text. \<open>serial_open\<close>
  reads the claims off the front of a token and accepts them if signing them with the
  key gives the token back.
\<close>

definition put_int :: "int \<Rightarrow> string" where
  "put_int n = Number_toString n @ '':''"

definition put_string :: "string \<Rightarrow> string" where
  "put_string s = put_int (int (length s)) @ s"

definition put_payload :: "JwtPayload \<Rightarrow> string" where
  "put_payload p =
     put_int (id' p) @ put_string (email p) @ put_string (username p)
       @ (if is_host p then ''1'' else ''0'') @ put_int (iat p)
       @ (case exp p of None \<Rightarrow> ''N'' | Some e \<Rightarrow> ''S'' @ put_int e)"

definition get_int :: "string \<Rightarrow> (int \<times> string) option" where
  "get_int s =
     (let d = takeWhile (\<lambda>c. c \<noteq> CHR '':'') s
      in case parseInt d of
           None \<Rightarrow> None
         | Some n \<Rightarrow> Some (n, drop (Suc (length d)) s))"

definition get_string :: "string \<Rightarrow> (string \<times> string) option" where
  "get_string s =
     (case get_int s of
        None \<Rightarrow> None
      | Some (n, r) \<Rightarrow>
          if 0 \<le> n \<and> nat n \<le> length r then Some (take (nat n) r, drop (nat n) r)
          else None)"

definition get_exp :: "string \<Rightarrow> int option option" where
  "get_exp s =
     (case s of
        [] \<Rightarrow> None
      | c # r \<Rightarrow>
          if c = CHR ''N'' then Some None
          else if c = CHR ''S'' then map_option (\<lambda>(e, r'). Some e) (get_int r)
          else None)"

definition get_payload :: "string \<Rightarrow> JwtPayload option" where
  "get_payload s =
     (case get_int s of
        None \<Rightarrow> None
      | Some (i, s1) \<Rightarrow>
     (case get_string s1 of
        None \<Rightarrow> None
      | Some (e, s2) \<Rightarrow>
     (case get_string s2 of
        None \<Rightarrow> None
      | Some (n, s3) \<Rightarrow>
     (case s3 of
        [] \<Rightarrow> None
      | h # s4 \<Rightarrow>
     (case get_int s4 of
        None \<Rightarrow> None
      | Some (t, s5) \<Rightarrow>
     (case get_exp s5 of
        None \<Rightarrow> None
      | Some x \<Rightarrow>
          Some \<lparr>id' = i, email = e, username = n, is_host = (h = CHR ''1''),
                iat = t, exp = x\<rparr>))))))"

definition serial_sign :: "JwtPayload \<Rightarrow> string \<Rightarrow> string" where
  "serial_sign payload secret =
     put_payload payload @ ''.''
       @ digest_hex (hmac_sha256 demo_env secret (put_payload payload))"

definition serial_open :: "string \<Rightarrow> string \<Rightarrow> JwtPayload option" where
  "serial_open token secret =
     (case get_payload token of
        None \<Rightarrow> None
      | Some payload \<Rightarrow> if serial_sign payload secret = token then Some payload else None)"

definition serial_env :: env where
  "serial_env = demo_env\<lparr>jws_sign := serial_sign, jws_open := serial_open\<rparr>"


text \<open>
  Requests for the examples: a session cookie that does not verify beside a valid Bearer
  token; the same with an empty cookie value; a mutation with a valid CSRF token in the
  cookie only; one with no CSRF token; one whose header carries the token of another user.
\<close>

definition request_bad_cookie :: request where
  "request_bad_cookie =
     \<lparr>method' = ''GET'', pathname = ''/api/auth/me'',
      cookies = [''auth_token'' \<mapsto> ''garbage''],
      headers = [''authorization'' \<mapsto> ''Bearer header.payload.signature'']\<rparr>"

definition request_empty_cookie :: request where
  "request_empty_cookie =
     \<lparr>method' = ''GET'', pathname = ''/api/auth/me'',
      cookies = [''auth_token'' \<mapsto> []],
      headers = [''authorization'' \<mapsto> ''Bearer header.payload.signature'']\<rparr>"

definition request_cookie_only :: request where
  "request_cookie_only =
     \<lparr>method' = ''POST'', pathname = ''/api/teams'',
      cookies = [''auth_token'' \<mapsto> ''header.payload.signature'',
                 ''csrf_token'' \<mapsto> demo_csrf_token],
      headers = Map.empty\<rparr>"

definition request_no_csrf :: request where
  "request_no_csrf =
     \<lparr>method' = ''POST'', pathname = ''/api/teams'',
      cookies = [''auth_token'' \<mapsto> ''header.payload.signature''],
      headers = Map.empty\<rparr>"

definition request_bad_header :: request where
  "request_bad_header =
     \<lparr>method' = ''POST'', pathname = ''/api/teams'',
      cookies = [''auth_token'' \<mapsto> ''header.payload.signature'',
                 ''csrf_token'' \<mapsto> demo_csrf_token],
      headers = [''x-csrf-token'' \<mapsto> generateCsrfToken demo_env 1000 6]\<rparr>"

section \<open>Notions used in the proofs\<close>

definition ascii :: "string \<Rightarrow> bool" where
  "ascii s = list_all (\<lambda>c. (of_char c :: nat) < 128) s"

definition decimal_digit :: "char \<Rightarrow> bool" where
  "decimal_digit c = (48 \<le> (of_char c :: nat) \<and> (of_char c :: nat) \<le> 57)"

text \<open>An ASCII character other than the colon.\<close>

definition token_char :: "char \<Rightarrow> bool" where
  "token_char c = ((of_char c :: nat) < 128 \<and> (of_char c :: nat) \<noteq> 58)"

text \<open>
  The bound that every event preserves: an entry's count is at most the larger of 1 and
  the limit of its key.
\<close>

definition count_bounded :: "(string \<Rightarrow> int) \<Rightarrow> rateLimitStore \<Rightarrow> bool" where
  "count_bounded lim store =
     (\<forall>key entry. store key = Some entry \<longrightarrow> count entry \<le> max 1 (lim key))"

section \<open>Properties of the rate limiter\<close>

text \<open>The three branches of \<open>checkRateLimit\<close>, one lemma each.\<close>

lemma checkRateLimit_absent:
  assumes "store (store_key config identifier) = None"
  shows "checkRateLimit store now identifier config =
    (\<lparr>success = True, remaining = maxRequests config - 1,
      resetIn = windowSeconds config, limit = maxRequests config\<rparr>,
     store(store_key config identifier \<mapsto>
       \<lparr>count = 1, resetTime = now + windowSeconds config * 1000\<rparr>))"
  using assms by (simp add: checkRateLimit_def Let_def)

lemma checkRateLimit_expired:
  assumes "store (store_key config identifier) = Some entry" and "now > resetTime entry"
  shows "checkRateLimit store now identifier config =
    (\<lparr>success = True, remaining = maxRequests config - 1,
      resetIn = windowSeconds config, limit = maxRequests config\<rparr>,
     store(store_key config identifier \<mapsto>
       \<lparr>count = 1, resetTime = now + windowSeconds config * 1000\<rparr>))"
  using assms by (simp add: checkRateLimit_def Let_def)

lemma checkRateLimit_denied:
  assumes "store (store_key config identifier) = Some entry" and "now \<le> resetTime entry"
    and "count entry \<ge> maxRequests config"
  shows "checkRateLimit store now identifier config =
    (\<lparr>success = False, remaining = 0,
      resetIn = ceil_seconds (resetTime entry - now), limit = maxRequests config\<rparr>,
     store)"
  using assms by (simp add: checkRateLimit_def Let_def)

lemma checkRateLimit_counted:
  assumes "store (store_key config identifier) = Some entry" and "now \<le> resetTime entry"
    and "count entry < maxRequests config"
  shows "checkRateLimit store now identifier config =
    (\<lparr>success = True, remaining = maxRequests config - (count entry + 1),
      resetIn = ceil_seconds (resetTime entry - now), limit = maxRequests config\<rparr>,
     store(store_key config identifier \<mapsto> entry\<lparr>count := count entry + 1\<rparr>))"
  using assms by (simp add: checkRateLimit_def Let_def)

lemma ceil_seconds_le:
  "ms \<le> 1000 * n \<Longrightarrow> ceil_seconds ms \<le> n"
  unfolding ceil_seconds_def by linarith

lemma count_bounded_step:
  assumes "count_bounded lim store" and "uses_limit lim ev"
  shows "count_bounded lim (step store ev)"
proof (cases ev)
  case (Check t ident cfg)
  with assms show ?thesis
    by (auto simp add: count_bounded_def checkRateLimit_def Let_def
        split: option.splits if_splits)
next
  case (Cleanup t)
  with assms show ?thesis
    by (auto simp add: count_bounded_def cleanupExpired_def split: option.splits if_splits)
qed

lemma count_bounded_run:
  assumes "count_bounded lim store" and "list_all (uses_limit lim) evs"
  shows "count_bounded lim (run store evs)"
  using assms unfolding run_def
  by (induction evs arbitrary: store) (simp_all add: count_bounded_step)

text \<open>
  C10. A call of \<open>checkRateLimit\<close> that answers \<open>success = false\<close> leaves the store
  exactly as it found it: the entry of the denied key keeps its count and its reset
  time, and no other key is created, changed or removed.
\<close>

theorem denied_call_keeps_store:
  "\<not> success (fst (checkRateLimit store now identifier config)) \<Longrightarrow>
   snd (checkRateLimit store now identifier config) = store"
  by (auto simp add: checkRateLimit_def Let_def split: option.splits if_splits)

theorem denied_call_keeps_store_witness:
  "\<not> success (fst (checkRateLimit
        [''login:1.2.3.4'' \<mapsto> \<lparr>count = 5, resetTime = 900000\<rparr>] 1000 ''1.2.3.4'' loginRateLimit))
   \<and> snd (checkRateLimit
        [''login:1.2.3.4'' \<mapsto> \<lparr>count = 5, resetTime = 900000\<rparr>] 1000 ''1.2.3.4'' loginRateLimit)
     = [''login:1.2.3.4'' \<mapsto> \<lparr>count = 5, resetTime = 900000\<rparr>]"
proof -
  have denied: "\<not> success (fst (checkRateLimit
        [''login:1.2.3.4'' \<mapsto> \<lparr>count = 5, resetTime = 900000\<rparr>] 1000 ''1.2.3.4'' loginRateLimit))"
    by (simp add: checkRateLimit_def store_key_def loginRateLimit_def Let_def)
  from denied denied_call_keeps_store [OF denied] show ?thesis by simp
qed

text \<open>
  C3. With \<open>maxRequests = 5\<close> and \<open>windowSeconds = 900\<close>, one identifier, and a store
  that holds no entry for its key or an expired one: five calls inside the window succeed
  with \<open>remaining\<close> 4, 3, 2, 1, 0; a sixth call inside the window is denied with
  \<open>remaining = 0\<close> and \<open>resetIn \<le> 900\<close>; a call strictly after the stored reset time
  succeeds again with \<open>remaining = 4\<close>. The clock values \<open>t1 \<dots> t7\<close> are what
  \<open>Date.now()\<close> gives at the seven calls.
\<close>

theorem five_allowed_sixth_denied_then_reset:
  assumes config: "maxRequests config = 5" "windowSeconds config = 900"
    and fresh: "store (store_key config identifier) = None \<or>
                (\<exists>entry. store (store_key config identifier) = Some entry \<and> t1 > resetTime entry)"
    and clock: "t1 \<le> t2" "t2 \<le> t3" "t3 \<le> t4" "t4 \<le> t5" "t5 \<le> t6"
    and window: "t6 \<le> t1 + 900000" "t1 + 900000 < t7"
  shows
    "(let (r1, s1) = checkRateLimit store t1 identifier config;
          (r2, s2) = checkRateLimit s1 t2 identifier config;
          (r3, s3) = checkRateLimit s2 t3 identifier config;
          (r4, s4) = checkRateLimit s3 t4 identifier config;
          (r5, s5) = checkRateLimit s4 t5 identifier config;
          (r6, s6) = checkRateLimit s5 t6 identifier config;
          (r7, s7) = checkRateLimit s6 t7 identifier config
      in map success [r1, r2, r3, r4, r5] = [True, True, True, True, True]
       \<and> map remaining [r1, r2, r3, r4, r5] = [4, 3, 2, 1, 0]
       \<and> \<not> success r6 \<and> remaining r6 = 0 \<and> resetIn r6 \<le> 900
       \<and> success r7 \<and> remaining r7 = 4)"
proof -
  let ?k = "store_key config identifier"
  let ?e = "\<lambda>n. \<lparr>count = n, resetTime = t1 + 900000\<rparr>"
  have c1: "checkRateLimit store t1 identifier config =
      (\<lparr>success = True, remaining = 4, resetIn = 900, limit = 5\<rparr>, store(?k \<mapsto> ?e 1))"
    using fresh config
    by (auto simp add: checkRateLimit_absent checkRateLimit_expired)
  have next_call: "checkRateLimit (store(?k \<mapsto> ?e n)) t identifier config =
      (\<lparr>success = True, remaining = 5 - (n + 1),
        resetIn = ceil_seconds (t1 + 900000 - t), limit = 5\<rparr>, store(?k \<mapsto> ?e (n + 1)))"
    if "n < 5" "t \<le> t1 + 900000" for n t
    using that config
    by (simp add: checkRateLimit_counted [where entry = "?e n"])
  have c2: "checkRateLimit (store(?k \<mapsto> ?e 1)) t2 identifier config =
      (\<lparr>success = True, remaining = 3,
        resetIn = ceil_seconds (t1 + 900000 - t2), limit = 5\<rparr>, store(?k \<mapsto> ?e 2))"
    using next_call [of 1 t2] clock window by simp
  have c3: "checkRateLimit (store(?k \<mapsto> ?e 2)) t3 identifier config =
      (\<lparr>success = True, remaining = 2,
        resetIn = ceil_seconds (t1 + 900000 - t3), limit = 5\<rparr>, store(?k \<mapsto> ?e 3))"
    using next_call [of 2 t3] clock window by simp
  have c4: "checkRateLimit (store(?k \<mapsto> ?e 3)) t4 identifier config =
      (\<lparr>success = True, remaining = 1,
        resetIn = ceil_seconds (t1 + 900000 - t4), limit = 5\<rparr>, store(?k \<mapsto> ?e 4))"
    using next_call [of 3 t4] clock window by simp
  have c5: "checkRateLimit (store(?k \<mapsto> ?e 4)) t5 identifier config =
      (\<lparr>success = True, remaining = 0,
        resetIn = ceil_seconds (t1 + 900000 - t5), limit = 5\<rparr>, store(?k \<mapsto> ?e 5))"
    using next_call [of 4 t5] clock window by simp
  have c6: "checkRateLimit (store(?k \<mapsto> ?e 5)) t6 identifier config =
      (\<lparr>success = False, remaining = 0,
        resetIn = ceil_seconds (t1 + 900000 - t6), limit = 5\<rparr>, store(?k \<mapsto> ?e 5))"
    using config window by (simp add: checkRateLimit_denied [where entry = "?e 5"])
  have c7: "checkRateLimit (store(?k \<mapsto> ?e 5)) t7 identifier config =
      (\<lparr>success = True, remaining = 4, resetIn = 900, limit = 5\<rparr>,
       store(?k \<mapsto> \<lparr>count = 1, resetTime = t7 + 900000\<rparr>))"
    using config window by (simp add: checkRateLimit_expired [where entry = "?e 5"])
  have r6: "ceil_seconds (t1 + 900000 - t6) \<le> 900"
    using clock by (intro ceil_seconds_le) simp
  show ?thesis
    by (simp add: c1 c2 c3 c4 c5 c6 c7 r6)
qed

theorem five_allowed_sixth_denied_then_reset_witness:
  "(let (r1, s1) = checkRateLimit Map.empty 1000 ''1.2.3.4'' loginRateLimit;
        (r2, s2) = checkRateLimit s1 2000 ''1.2.3.4'' loginRateLimit;
        (r3, s3) = checkRateLimit s2 3000 ''1.2.3.4'' loginRateLimit;
        (r4, s4) = checkRateLimit s3 4000 ''1.2.3.4'' loginRateLimit;
        (r5, s5) = checkRateLimit s4 5000 ''1.2.3.4'' loginRateLimit;
        (r6, s6) = checkRateLimit s5 6000 ''1.2.3.4'' loginRateLimit;
        (r7, s7) = checkRateLimit s6 901001 ''1.2.3.4'' loginRateLimit
    in map success [r1, r2, r3, r4, r5] = [True, True, True, True, True]
     \<and> map remaining [r1, r2, r3, r4, r5] = [4, 3, 2, 1, 0]
     \<and> \<not> success r6 \<and> remaining r6 = 0 \<and> resetIn r6 \<le> 900
     \<and> success r7 \<and> remaining r7 = 4)"
  by (rule five_allowed_sixth_denied_then_reset [where ?t1.0 = 1000])
     (simp_all add: loginRateLimit_def)

text \<open>
  C7. In every run from the empty store in which all calls for a key pass the same
  \<open>maxRequests\<close> (a limit, so not negative), the count stored for that key never exceeds
  \<open>maxRequests + 1\<close>. Firings of the cleanup timer may fall anywhere in the run.
\<close>

theorem count_never_exceeds_limit_plus_one:
  assumes "list_all (uses_limit lim) evs" and "0 \<le> lim key"
    and "run Map.empty evs key = Some entry"
  shows "count entry \<le> lim key + 1"
proof -
  have "count_bounded lim Map.empty"
    by (simp add: count_bounded_def)
  then have "count_bounded lim (run Map.empty evs)"
    using assms(1) by (rule count_bounded_run)
  then have "count entry \<le> max 1 (lim key)"
    using assms(3) by (simp add: count_bounded_def)
  then show ?thesis
    using assms(2) by simp
qed

theorem count_never_exceeds_limit_plus_one_witness:
  "list_all (uses_limit (\<lambda>key. 0))
      [Check 1000 ''1.2.3.4'' \<lparr>maxRequests = 0, windowSeconds = 60, prefix = None\<rparr>,
       Check 2000 ''1.2.3.4'' \<lparr>maxRequests = 0, windowSeconds = 60, prefix = None\<rparr>]
   \<and> run Map.empty
      [Check 1000 ''1.2.3.4'' \<lparr>maxRequests = 0, windowSeconds = 60, prefix = None\<rparr>,
       Check 2000 ''1.2.3.4'' \<lparr>maxRequests = 0, windowSeconds = 60, prefix = None\<rparr>]
      '':1.2.3.4'' = Some \<lparr>count = 1, resetTime = 61000\<rparr>
   \<and> count \<lparr>count = 1, resetTime = 61000\<rparr> \<le> (0::int) + 1"
proof -
  let ?evs = "[Check 1000 ''1.2.3.4'' \<lparr>maxRequests = 0, windowSeconds = 60, prefix = None\<rparr>,
       Check 2000 ''1.2.3.4'' \<lparr>maxRequests = 0, windowSeconds = 60, prefix = None\<rparr>]"
  have a: "list_all (uses_limit (\<lambda>key. 0)) ?evs"
    by simp
  have b: "run Map.empty ?evs '':1.2.3.4'' = Some \<lparr>count = 1, resetTime = 61000\<rparr>"
    by (simp add: run_def checkRateLimit_def store_key_def Let_def)
  from count_never_exceeds_limit_plus_one [OF a _ b] a b show ?thesis
    by simp
qed

section \<open>Properties of the library functions\<close>

subsection \<open>Base64: decoding what was encoded gives the bytes back\<close>

lemma unbase64_base64_char: "i < 64 \<Longrightarrow> unbase64 (base64_char i) = Some i"
  by (auto simp add: unbase64_def base64_char_def Let_def)

lemma base64_char_not_pad: "i < 64 \<Longrightarrow> base64_char i \<noteq> CHR ''=''"
  using unbase64_base64_char [of i] by (auto simp add: unbase64_def)

lemma sextets_of_Cons:
  "i < 64 \<Longrightarrow> sextets_of (base64_char i # s) = i # sextets_of s"
  by (simp add: sextets_of_def base64_char_not_pad unbase64_base64_char map_filter_simps)

lemma sextets_of_pad: "sextets_of (CHR ''='' # s) = []"
  by (simp add: sextets_of_def map_filter_simps)

lemma sextets_of_Nil: "sextets_of [] = []"
  by (simp add: sextets_of_def map_filter_simps)

text \<open>Three bytes, cut into four groups of six bits and put together again.\<close>

lemma sextet_div16: "b < 256 \<Longrightarrow> ((x::nat) * 16 + b div 16) div 16 = x"
  by simp

lemma sextet_div4: "c < 256 \<Longrightarrow> ((x::nat) * 4 + c div 64) div 4 = x"
  by simp

lemma byte1_of_group:
  "(a::nat) < 256 \<Longrightarrow> b < 256 \<Longrightarrow>
    ((a div 4) * 4 + ((a mod 4) * 16 + b div 16) div 16) mod 256 = a"
  by (simp add: sextet_div16)

lemma byte2_of_group:
  "(b::nat) < 256 \<Longrightarrow> c < 256 \<Longrightarrow>
    (((a mod 4) * 16 + b div 16) * 16 + ((b mod 16) * 4 + c div 64) div 4) mod 256 = b"
proof -
  assume b: "b < 256" and c: "c < 256"
  have "(((a mod 4) * 16 + b div 16) * 16 + ((b mod 16) * 4 + c div 64) div 4)
      = 256 * (a mod 4) + ((b div 16) * 16 + b mod 16)"
    using c by (simp add: sextet_div4)
  also have "\<dots> mod 256 = ((b div 16) * 16 + b mod 16) mod 256"
    by simp
  also have "\<dots> = b" using b by simp
  finally show ?thesis .
qed

lemma byte3_of_group:
  "(c::nat) < 256 \<Longrightarrow> (((b mod 16) * 4 + c div 64) * 64 + c mod 64) mod 256 = c"
proof -
  assume c: "c < 256"
  have "(((b mod 16) * 4 + c div 64) * 64 + c mod 64)
      = 256 * (b mod 16) + ((c div 64) * 64 + c mod 64)"
    by simp
  also have "\<dots> mod 256 = ((c div 64) * 64 + c mod 64) mod 256"
    by simp
  also have "\<dots> = c" using c by simp
  finally show ?thesis .
qed

lemma byte2_of_padded_group:
  "(b::nat) < 256 \<Longrightarrow>
    (((a mod 4) * 16 + b div 16) * 16 + ((b mod 16) * 4) div 4) mod 256 = b"
  using byte2_of_group [of b 0 a] by simp

lemma byte1_of_padded_group:
  "(a::nat) < 256 \<Longrightarrow> ((a div 4) * 4 + ((a mod 4) * 16) div 16) mod 256 = a"
  by simp


lemma unbase64_groups_base64_groups:
  "\<forall>b \<in> set bs. b < 256 \<Longrightarrow> unbase64_groups (sextets_of (base64_groups bs)) = bs"
proof (induction bs rule: base64_groups.induct)
  case (1 a b c rest)
  then have lt: "a < 256" "b < 256" "c < 256" by simp_all
  have i: "a div 4 < 64" "(a mod 4) * 16 + b div 16 < 64"
    "(b mod 16) * 4 + c div 64 < 64" "c mod 64 < 64"
    using lt by simp_all
  show ?case
    using 1 i byte1_of_group [OF lt(1) lt(2)] byte2_of_group [OF lt(2) lt(3), of a]
      byte3_of_group [OF lt(3), of b]
    by (simp add: sextets_of_Cons)
next
  case (2 a b)
  then have lt: "a < 256" "b < 256" by simp_all
  have i: "a div 4 < 64" "(a mod 4) * 16 + b div 16 < 64" "(b mod 16) * 4 < 64"
    using lt by simp_all
  show ?case
    using i byte1_of_group [OF lt(1) lt(2)] byte2_of_padded_group [OF lt(2), of a]
    by (simp add: sextets_of_Cons sextets_of_pad)
next
  case (3 a)
  then have lt: "a < 256" by simp
  have i: "a div 4 < 64" "(a mod 4) * 16 < 64"
    using lt by simp_all
  show ?case
    using i byte1_of_padded_group [OF lt]
    by (simp add: sextets_of_Cons sextets_of_pad)
next
  case 4
  show ?case by (simp add: sextets_of_Nil)
qed

lemma base64_roundtrip: "Buffer_from_base64 (Buffer_toString_base64 s) = s"
proof -
  have "\<forall>b \<in> set (map of_char s :: nat list). b < 256"
    by simp
  then have "unbase64_groups (sextets_of (base64_groups (map of_char s))) = map of_char s"
    by (rule unbase64_groups_base64_groups)
  then show ?thesis
    by (simp add: Buffer_from_base64_def Buffer_toString_base64_def sextets_of_def
        comp_def map_idI)
qed

subsection \<open>UTF-8 and split on text of ASCII fields\<close>

lemma utf8_decode_ascii: "ascii s \<Longrightarrow> utf8_decode s = s"
  by (induction s) (simp_all add: ascii_def in_range_def)

lemma js_split_no_sep: "sep \<notin> set a \<Longrightarrow> js_split sep a = [a]"
  by (induction a) auto

lemma js_split_field: "sep \<notin> set a \<Longrightarrow> js_split sep (a @ sep # r) = a # js_split sep r"
  by (induction a) auto

subsection \<open>\<open>parseInt\<close> reads back the decimal string of an integer\<close>

lemma decimal_digit_char_of: "d < 10 \<Longrightarrow> decimal_digit (char_of (48 + d :: nat))"
  by (simp add: decimal_digit_def)

lemma digit_value_char_of: "d < 10 \<Longrightarrow> digit_value (char_of (48 + d :: nat)) = Some d"
  by (simp add: digit_value_def Let_def)

lemma digit_chars_digits: "list_all decimal_digit (digit_chars n)"
proof (induction n rule: digit_chars.induct)
  case (1 n)
  show ?case
  proof (cases "n < 10")
    case True
    then show ?thesis
      by (subst digit_chars.simps) (simp add: decimal_digit_char_of)
  next
    case False
    with 1 show ?thesis
      by (subst digit_chars.simps) (simp add: decimal_digit_char_of)
  qed
qed

lemma digit_chars_not_Nil: "digit_chars n \<noteq> []"
  by (subst digit_chars.simps) simp

lemma decimal_digit_radix: "decimal_digit c \<Longrightarrow> radix_digit 10 c"
  by (auto simp add: decimal_digit_def radix_digit_def digit_value_def Let_def)

lemma takeWhile_digits:
  "list_all decimal_digit s \<Longrightarrow> takeWhile (radix_digit 10) s = s"
  by (induction s) (simp_all add: decimal_digit_radix)

lemma digits_value_snoc:
  "digits_value R (Z @ [c]) =
     (case digit_value c of None \<Rightarrow> digits_value R Z | Some d \<Rightarrow> digits_value R Z * R + d)"
  by (simp add: digits_value_def split: option.splits)

lemma digits_value_digit_chars: "digits_value 10 (digit_chars n) = n"
proof (induction n rule: digit_chars.induct)
  case (1 n)
  show ?case
  proof (cases "n < 10")
    case True
    then show ?thesis
      by (subst digit_chars.simps) (simp add: digits_value_def digit_value_char_of)
  next
    case False
    with 1 show ?thesis
      by (subst digit_chars.simps) (simp add: digits_value_snoc digit_value_char_of)
  qed
qed

lemma js_whitespace_lead:
  "\<forall>w \<in> set js_whitespace.
     w \<noteq> [] \<and> \<not> (45 \<le> (of_char (hd w) :: nat) \<and> (of_char (hd w) :: nat) \<le> 57)"
  by (simp add: js_whitespace_def)

lemma whitespace_at_digit:
  assumes "decimal_digit c \<or> c = CHR ''-''"
  shows "whitespace_at (c # s) = 0"
proof -
  have c: "45 \<le> (of_char c :: nat) \<and> (of_char c :: nat) \<le> 57"
    using assms by (auto simp add: decimal_digit_def)
  have "take (length w) (c # s) \<noteq> w" if "w \<in> set js_whitespace" for w
  proof
    assume eq: "take (length w) (c # s) = w"
    from that js_whitespace_lead have w: "w \<noteq> []"
      and h: "\<not> (45 \<le> (of_char (hd w) :: nat) \<and> (of_char (hd w) :: nat) \<le> 57)"
      by blast+
    from w obtain x xs where "w = x # xs" by (cases w) auto
    with eq have "hd w = c" by simp
    with h c show False by simp
  qed
  then have "filter (\<lambda>w. take (length w) (c # s) = w) js_whitespace = []"
    by (simp add: filter_empty_conv)
  then show ?thesis
    by (simp add: whitespace_at_def)
qed

lemma trimStart_digit:
  "decimal_digit c \<or> c = CHR ''-'' \<Longrightarrow> trimStart (c # s) = c # s"
  by (subst trimStart.simps) (simp add: whitespace_at_digit)

lemma decimal_digit_not_sign: "decimal_digit c \<Longrightarrow> c \<noteq> CHR ''-'' \<and> c \<noteq> CHR ''+''"
  by (auto simp add: decimal_digit_def)

lemma decimal_digit_not_x: "decimal_digit c \<Longrightarrow> c \<noteq> CHR ''x'' \<and> c \<noteq> CHR ''X''"
  by (auto simp add: decimal_digit_def)

lemma digits_not_hex_prefix:
  assumes "list_all decimal_digit s"
  shows "take 2 s \<noteq> ''0x'' \<and> take 2 s \<noteq> ''0X''"
proof (cases s)
  case Nil
  then show ?thesis by simp
next
  case (Cons c r)
  show ?thesis
  proof (cases r)
    case Nil
    with Cons show ?thesis by simp
  next
    case (Cons d r')
    with \<open>s = c # r\<close> assms have "decimal_digit d" by simp
    then have "d \<noteq> CHR ''x'' \<and> d \<noteq> CHR ''X''" by (rule decimal_digit_not_x)
    with Cons \<open>s = c # r\<close> show ?thesis by simp
  qed
qed

lemma parseInt_digits:
  assumes "list_all decimal_digit s" and "s \<noteq> []"
  shows "parseInt s = Some (int (digits_value 10 s))"
proof -
  from assms obtain c r where s: "s = c # r" by (cases s) auto
  with assms have c: "decimal_digit c" by simp
  have t: "trimStart s = s"
    unfolding s using c by (simp add: trimStart_digit)
  have sg: "c \<noteq> CHR ''-''" "c \<noteq> CHR ''+''"
    using decimal_digit_not_sign [OF c] by simp_all
  have sign: "(case s of c # r \<Rightarrow> if c = CHR ''-'' then - 1 else 1 | [] \<Rightarrow> (1::int)) = 1"
    using s sg by simp
  have strip: "(case s of c # r \<Rightarrow> if c = CHR ''-'' \<or> c = CHR ''+'' then r else s | [] \<Rightarrow> s) = s"
    using s sg by simp
  have hx: "take 2 s \<noteq> ''0x''" "take 2 s \<noteq> ''0X''"
    using digits_not_hex_prefix [OF assms(1)] by simp_all
  have tw: "takeWhile (radix_digit 10) s = s"
    using assms(1) by (rule takeWhile_digits)
  show ?thesis
    unfolding parseInt_def t Let_def sign strip
    by (simp add: hx tw assms(2))
qed

lemma parseInt_minus_digits:
  assumes "list_all decimal_digit s" and "s \<noteq> []"
  shows "parseInt (CHR ''-'' # s) = Some (- int (digits_value 10 s))"
proof -
  have t: "trimStart (CHR ''-'' # s) = CHR ''-'' # s"
    by (simp add: trimStart_digit)
  have hx: "take 2 s \<noteq> ''0x''" "take 2 s \<noteq> ''0X''"
    using digits_not_hex_prefix [OF assms(1)] by simp_all
  have tw: "takeWhile (radix_digit 10) s = s"
    using assms(1) by (rule takeWhile_digits)
  show ?thesis
    unfolding parseInt_def t Let_def
    by (simp add: hx tw assms(2))
qed

lemma parseInt_Number_toString: "parseInt (Number_toString n) = Some n"
proof (cases "n < 0")
  case True
  then show ?thesis
    by (simp add: Number_toString_def parseInt_minus_digits digit_chars_digits
        digit_chars_not_Nil digits_value_digit_chars)
next
  case False
  then show ?thesis
    by (simp add: Number_toString_def parseInt_digits digit_chars_digits
        digit_chars_not_Nil digits_value_digit_chars)
qed

subsection \<open>The characters of decimal strings and hex digests\<close>

lemma decimal_digit_token_char: "decimal_digit c \<Longrightarrow> token_char c"
  by (auto simp add: decimal_digit_def token_char_def)

lemma Number_toString_token_chars: "list_all token_char (Number_toString n)"
proof -
  have "list_all token_char (digit_chars k)" for k
    using digit_chars_digits [of k]
    by (simp add: list_all_iff decimal_digit_token_char)
  then show ?thesis
    by (simp add: Number_toString_def token_char_def)
qed

lemma hex_digit_token_char: "d < 16 \<Longrightarrow> token_char (hex_digit d)"
  by (auto simp add: hex_digit_def token_char_def)

lemma digest_hex_token_chars: "list_all token_char (digest_hex bytes)"
proof (induction bytes)
  case Nil
  show ?case by (simp add: digest_hex_def)
next
  case (Cons b bytes)
  have "(of_char b :: nat) div 16 < 16"
    by (simp add: less_mult_imp_div_less)
  moreover have "(of_char b :: nat) mod 16 < 16" 
    by simp
  ultimately show ?case
    using Cons by (simp add: digest_hex_def hex_digit_token_char)
qed

lemma token_chars_no_colon: "list_all token_char s \<Longrightarrow> CHR '':'' \<notin> set s"
  by (auto simp add: list_all_iff token_char_def)

lemma token_chars_ascii: "list_all token_char s \<Longrightarrow> ascii s"
  by (auto simp add: list_all_iff token_char_def ascii_def)

section \<open>The concrete environment evaluated\<close>

lemma char_of_eq_iff:
  "n < 256 \<Longrightarrow> (char_of (n::nat) = c) = (n = of_char c)"
  "n < 256 \<Longrightarrow> (c = char_of (n::nat)) = (n = of_char c)"
  by (metis char_of_char of_char_of mod_less)+

lemma demo_Number_toString: "Number_toString 5 = ''5''" "Number_toString 1000 = ''1000''"
  by (simp_all add: Number_toString_def digit_chars.simps char_of_eq_iff)

lemma demo_parseInt: "parseInt ''5'' = Some 5" "parseInt ''1000'' = Some 1000"
  using parseInt_Number_toString [of 5] parseInt_Number_toString [of 1000]
  by (simp_all add: demo_Number_toString)

lemma upt_32:
  "[0..<32] = [0, 1, 2, 3, 4, 5, 6, 7, 8, 9, 10, 11, 12, 13, 14, 15, 16, 17, 18, 19,
    20, 21, 22, 23, 24, 25, 26, 27, 28, 29, 30, 31]"
  by code_simp

lemma demo_digest:
  "digest_hex (hmac_sha256 demo_env (CSRF_SECRET demo_env) ''5:1000'') = demo_signature"
  by (simp add: demo_env_def demo_signature_def digest_hex_def hex_digit_def char_of_eq_iff
      upt_32)

lemma demo_signature_token_chars: "list_all token_char demo_signature"
  using digest_hex_token_chars [of "hmac_sha256 demo_env (CSRF_SECRET demo_env) ''5:1000''"]
  by (simp only: demo_digest)

lemma decoded_fields_ascii:
  "ascii s \<Longrightarrow> decoded_fields (Buffer_toString_base64 s) = js_split CHR '':'' s"
  by (simp add: decoded_fields_def base64_roundtrip utf8_decode_ascii)

lemma demo_verifyToken:
  "verifyToken demo_env 1000 ''header.payload.signature'' = Inr (Some demo_claims)"
  "verifyToken demo_env 1000 ''garbage'' = Inr None"
  "verifyToken demo_env 1000 [] = Inr None"
  by (simp_all add: verifyToken_def try_catch_def jwt_verify_def demo_env_def demo_claims_def)

lemma demo_paths:
  "startsWith ''/api/teams'' ''/api/''"
  "\<not> path_in csrfExemptPaths ''/api/teams''"
  "\<not> path_in publicPaths ''/api/teams''"
  by (simp_all add: startsWith_def path_in_def csrfExemptPaths_def publicPaths_def)

lemma demo_requests_mutation:
  "toUpperCase (method' request_cookie_only) \<in> set [''POST'', ''PUT'', ''DELETE'', ''PATCH'']"
  "toUpperCase (method' request_no_csrf) \<in> set [''POST'', ''PUT'', ''DELETE'', ''PATCH'']"
  "toUpperCase (method' request_bad_header) \<in> set [''POST'', ''PUT'', ''DELETE'', ''PATCH'']"
  by (simp_all add: toUpperCase_def ascii_upper_def
      request_cookie_only_def request_no_csrf_def request_bad_header_def)

lemma demo_requests_authenticated:
  "getUserFromRequest demo_env 1000 request_cookie_only = Inr (Some demo_claims)"
  "getUserFromRequest demo_env 1000 request_no_csrf = Inr (Some demo_claims)"
  "getUserFromRequest demo_env 1000 request_bad_header = Inr (Some demo_claims)"
  by (simp_all add: getUserFromRequest_def truthy_def demo_verifyToken Let_def
      request_cookie_only_def request_no_csrf_def request_bad_header_def)

section \<open>CSRF tokens\<close>

lemma js_split_three:
  assumes "list_all token_char a" "list_all token_char b" "list_all token_char c"
  shows "js_split CHR '':'' (a @ '':'' @ b @ '':'' @ c) = [a, b, c]"
  using assms
  by (simp add: js_split_field js_split_no_sep token_chars_no_colon)

text \<open>The fields that verification reads out of an issued token.\<close>

lemma decoded_fields_generateCsrfToken:
  "decoded_fields (generateCsrfToken E now userId) =
     [Number_toString userId, Number_toString now,
      digest_hex (hmac_sha256 E (CSRF_SECRET E)
        (Number_toString userId @ '':'' @ Number_toString now))]"
proof -
  let ?u = "Number_toString userId" and ?t = "Number_toString now"
  let ?s = "digest_hex (hmac_sha256 E (CSRF_SECRET E) (?u @ '':'' @ ?t))"
  have u: "list_all token_char ?u" and t: "list_all token_char ?t"
    and s: "list_all token_char ?s"
    by (rule Number_toString_token_chars Number_toString_token_chars digest_hex_token_chars)+
  have "ascii (?u @ '':'' @ ?t @ '':'' @ ?s)"
    using token_chars_ascii [OF u] token_chars_ascii [OF t] token_chars_ascii [OF s]
    by (simp add: ascii_def)
  then have "utf8_decode (?u @ '':'' @ ?t @ '':'' @ ?s) = ?u @ '':'' @ ?t @ '':'' @ ?s"
    by (rule utf8_decode_ascii)
  then show ?thesis
    using js_split_three [OF u t s]
    by (simp add: decoded_fields_def generateCsrfToken_def Let_def base64_roundtrip)
qed

text \<open>
  The answer for an issued token, in full: accepted for the user it was issued to, up to
  24 hours after its issue.
\<close>

lemma verifyCsrfToken_generateCsrfToken:
  "verifyCsrfToken E now' (generateCsrfToken E now userId) userId' =
     Inr (userId' = userId \<and> now' - now \<le> 24 * 60 * 60 * 1000)"
  by (auto simp add: verifyCsrfToken_def verifyCsrfToken_try_def try_catch_def
      decoded_fields_generateCsrfToken nth_opt_def ToString_def parseInt_Number_toString
      Buffer_from_def timingSafeEqual_def Let_def)

text \<open>The \<open>try\<close> block reads the first three fields only.\<close>

lemma nth_opt_take: "i < n \<Longrightarrow> nth_opt (take n xs) i = nth_opt xs i"
  by (simp add: nth_opt_def)

lemma verifyCsrfToken_try_fields:
  "verifyCsrfToken_try E now token userId =
     (let fields = take 3 (decoded_fields token);
          tokenUserId = nth_opt fields 0;
          timestamp = nth_opt fields 1;
          signature = nth_opt fields 2
      in if parseInt (ToString tokenUserId) \<noteq> Some userId then Inr False
         else if (case parseInt (ToString timestamp) of
                    None \<Rightarrow> False
                  | Some t \<Rightarrow> now - t > 24 * 60 * 60 * 1000) then Inr False
         else
           (let expectedSignature =
                  digest_hex (hmac_sha256 E (CSRF_SECRET E)
                    (ToString tokenUserId @ '':'' @ ToString timestamp))
            in case Buffer_from signature of
                 Inl e \<Rightarrow> Inl e
               | Inr sig \<Rightarrow> timingSafeEqual sig expectedSignature))"
  unfolding verifyCsrfToken_try_def Let_def
  by (simp only: nth_opt_take [of _ 3, simplified])

lemma trimStart_Nil: "trimStart [] = []"
  by (subst trimStart.simps) (simp add: whitespace_at_def js_whitespace_def)

lemma parseInt_Nil: "parseInt [] = None"
  by (simp add: parseInt_def trimStart_Nil)

lemma verifyCsrfToken_Nil: "verifyCsrfToken E now [] userId = Inr False"
  by (simp add: verifyCsrfToken_def verifyCsrfToken_try_def try_catch_def decoded_fields_def
      Buffer_from_base64_def sextets_of_def map_filter_simps nth_opt_def ToString_def
      parseInt_Nil Let_def)

lemma generateCsrfToken_not_Nil: "generateCsrfToken E now userId \<noteq> []"
  using verifyCsrfToken_generateCsrfToken [of E now now userId userId]
    verifyCsrfToken_Nil [of E now userId]
  by auto

lemma demo_generateCsrfToken: "generateCsrfToken demo_env 1000 5 = demo_csrf_token"
proof -
  have "Buffer_toString_base64 (''5:1000:'' @ demo_signature) = demo_csrf_token"
    by (simp add: Buffer_toString_base64_def base64_char_def demo_signature_def
        demo_csrf_token_def char_of_eq_iff)
  then show ?thesis
    using demo_digest by (simp add: generateCsrfToken_def Let_def demo_Number_toString)
qed

lemma demo_csrf_token_extra_encoded:
  "demo_csrf_token_extra = Buffer_toString_base64 (''5:1000:'' @ demo_signature @ '':extra'')"
  by (simp add: Buffer_toString_base64_def base64_char_def demo_signature_def
      demo_csrf_token_extra_def char_of_eq_iff)

lemma decoded_fields_demo_csrf_token_extra:
  "decoded_fields demo_csrf_token_extra = [''5'', ''1000'', demo_signature, ''extra'']"
proof -
  have s: "list_all token_char demo_signature"
    by (rule demo_signature_token_chars)
  have f: "list_all token_char ''5''" "list_all token_char ''1000''" "list_all token_char ''extra''"
    by (simp_all add: token_char_def)
  have a: "ascii (''5:1000:'' @ demo_signature @ '':extra'')"
    using token_chars_ascii [OF s] by (simp add: ascii_def)
  have c: "CHR '':'' \<notin> set demo_signature"
    using s by (rule token_chars_no_colon)
  have "js_split CHR '':'' (''5'' @ CHR '':'' # ''1000'' @ CHR '':'' # demo_signature @ CHR '':'' # ''extra'')
      = [''5'', ''1000'', demo_signature, ''extra'']"
    using c by (simp only: js_split_field js_split_no_sep token_chars_no_colon [OF f(1)]
        token_chars_no_colon [OF f(2)] token_chars_no_colon [OF f(3)] not_False_eq_True)
  then have "js_split CHR '':'' (''5:1000:'' @ demo_signature @ '':extra'')
      = [''5'', ''1000'', demo_signature, ''extra'']"
    by simp
  then show ?thesis
    unfolding decoded_fields_def demo_csrf_token_extra_encoded base64_roundtrip
      utf8_decode_ascii [OF a] .
qed

lemma demo_csrf_token_valid: "verifyCsrfToken demo_env 1000 demo_csrf_token 5 = Inr True"
  using verifyCsrfToken_generateCsrfToken [of demo_env 1000 1000 5 5]
  by (simp add: demo_generateCsrfToken)

text \<open>
  C1. A CSRF token issued for a user id verifies for that id when it is checked at the
  clock of its issue, and for no other id at any time. A user id is an integer held by a
  JavaScript number, that is a safe integer, where the model of numbers is exact.
\<close>

theorem csrf_token_bound_to_user:
  assumes "isSafeInteger userId"
  shows "verifyCsrfToken E now (generateCsrfToken E now userId) userId = Inr True
    \<and> (\<forall>userId' now'. userId' \<noteq> userId \<longrightarrow>
          verifyCsrfToken E now' (generateCsrfToken E now userId) userId' = Inr False)"
  by (simp add: verifyCsrfToken_generateCsrfToken)

theorem csrf_token_bound_to_user_witness:
  "isSafeInteger 5
   \<and> verifyCsrfToken demo_env 1000 demo_csrf_token 5 = Inr True
   \<and> verifyCsrfToken demo_env 2000 demo_csrf_token 6 = Inr False"
proof -
  have safe: "isSafeInteger 5"
    by (simp add: isSafeInteger_def)
  from csrf_token_bound_to_user [OF safe, of demo_env 1000] safe show ?thesis
    by (simp add: demo_generateCsrfToken)
qed

text \<open>
  C2. A token whose decoded text has fewer than three fields between colons is rejected
  for every user id. Fields after the third are not looked at: two tokens whose decoded
  texts agree on their first three fields get the same answer, so a valid token with a
  further \<open>:suffix\<close> appended to its decoded text stays valid.
\<close>

theorem short_token_rejected_extra_fields_ignored:
  "(length (decoded_fields token) < 3 \<longrightarrow> verifyCsrfToken E now token userId = Inr False)
   \<and> (take 3 (decoded_fields token) = take 3 (decoded_fields token') \<longrightarrow>
        verifyCsrfToken E now token userId = verifyCsrfToken E now token' userId)"
proof (intro conjI impI)
  assume "length (decoded_fields token) < 3"
  then have "nth_opt (decoded_fields token) 2 = None"
    by (simp add: nth_opt_def)
  then show "verifyCsrfToken E now token userId = Inr False"
    by (simp add: verifyCsrfToken_def verifyCsrfToken_try_def try_catch_def Let_def
        Buffer_from_def)
next
  assume "take 3 (decoded_fields token) = take 3 (decoded_fields token')"
  then have "verifyCsrfToken_try E now token userId = verifyCsrfToken_try E now token' userId"
    by (simp only: verifyCsrfToken_try_fields)
  then show "verifyCsrfToken E now token userId = verifyCsrfToken E now token' userId"
    by (simp add: verifyCsrfToken_def)
qed

theorem short_token_rejected_extra_fields_ignored_witness:
  "length (decoded_fields (Buffer_toString_base64 ''5:1000'')) < 3
   \<and> verifyCsrfToken demo_env 1000 (Buffer_toString_base64 ''5:1000'') 5 = Inr False
   \<and> take 3 (decoded_fields demo_csrf_token_extra) = take 3 (decoded_fields demo_csrf_token)
   \<and> verifyCsrfToken demo_env 1000 demo_csrf_token_extra 5
       = verifyCsrfToken demo_env 1000 demo_csrf_token 5"
proof -
  have short: "length (decoded_fields (Buffer_toString_base64 ''5:1000'')) < 3"
    by (simp add: decoded_fields_ascii ascii_def)
  have same: "take 3 (decoded_fields demo_csrf_token_extra) = take 3 (decoded_fields demo_csrf_token)"
    using decoded_fields_generateCsrfToken [of demo_env 1000 5]
    by (simp add: decoded_fields_demo_csrf_token_extra demo_generateCsrfToken
        demo_Number_toString demo_digest)
  from short same
    short_token_rejected_extra_fields_ignored
      [where token = "Buffer_toString_base64 ''5:1000''" and E = demo_env and now = 1000
         and userId = 5]
    short_token_rejected_extra_fields_ignored
      [where token = demo_csrf_token_extra and token' = demo_csrf_token and E = demo_env
         and now = 1000 and userId = 5]
  show ?thesis by simp
qed

text \<open>
  The decoded text of \<open>demo_csrf_token_extra\<close> has four fields, and the token is
  accepted.
\<close>

theorem extra_field_token_accepted:
  "length (decoded_fields demo_csrf_token_extra) \<noteq> 3
   \<and> verifyCsrfToken demo_env 1000 demo_csrf_token_extra 5 = Inr True"
proof -
  have "verifyCsrfToken_try demo_env 1000 demo_csrf_token_extra 5 = Inr True"
    by (simp add: verifyCsrfToken_try_def decoded_fields_demo_csrf_token_extra nth_opt_def
        ToString_def demo_parseInt demo_digest Buffer_from_def timingSafeEqual_def Let_def)
  then show ?thesis
    by (simp add: verifyCsrfToken_def try_catch_def decoded_fields_demo_csrf_token_extra)
qed

text \<open>
  C4. A CSRF token whose embedded timestamp lies more than 24 hours (86,400,000 ms) before
  the clock of the verification is rejected, whatever its signature and user id are.
\<close>

theorem expired_csrf_token_rejected:
  assumes "nth_opt (decoded_fields token) 1 = Some timestamp"
    and "parseInt timestamp = Some t"
    and "now - t > 86400000"
  shows "verifyCsrfToken E now token userId = Inr False"
  using assms
  by (simp add: verifyCsrfToken_def verifyCsrfToken_try_def try_catch_def ToString_def Let_def)

theorem expired_csrf_token_rejected_witness:
  "nth_opt (decoded_fields demo_csrf_token) 1 = Some ''1000''
   \<and> parseInt ''1000'' = Some 1000
   \<and> (86401001::int) - 1000 > 86400000
   \<and> verifyCsrfToken demo_env 1000 demo_csrf_token 5 = Inr True
   \<and> verifyCsrfToken demo_env 86401001 demo_csrf_token 5 = Inr False"
proof -
  have ts: "nth_opt (decoded_fields demo_csrf_token) 1 = Some ''1000''"
    using decoded_fields_generateCsrfToken [of demo_env 1000 5]
    by (simp add: demo_generateCsrfToken demo_Number_toString nth_opt_def)
  have age: "(86401001::int) - 1000 > 86400000"
    by simp
  have fresh: "verifyCsrfToken demo_env 1000 demo_csrf_token 5 = Inr True"
    using verifyCsrfToken_generateCsrfToken [of demo_env 1000 1000 5 5]
    by (simp add: demo_generateCsrfToken)
  from expired_csrf_token_rejected [OF ts demo_parseInt(2) age, of demo_env 5] ts age fresh
  show ?thesis by (simp add: demo_parseInt)
qed

text \<open>
  C8. \<open>verifyCsrfToken\<close> returns a boolean for every input string and lets no exception
  out: whatever the body of its \<open>try\<close> throws becomes \<open>false\<close>. In particular a user id
  field that is not a number, a missing signature field (a \<open>TypeError\<close> inside) and a
  signature whose length is not that of the expected digest (a \<open>RangeError\<close> inside) all
  give \<open>false\<close>. In the same way \<open>verifyToken\<close> always returns, and returns \<open>null\<close>
  whenever \<open>jwt.verify\<close> throws (malformed, tampered or expired token).
\<close>

theorem verification_never_throws:
  "(\<exists>b. verifyCsrfToken E now token userId = Inr b)
   \<and> (\<forall>e. verifyCsrfToken_try E now token userId = Inl e \<longrightarrow>
          verifyCsrfToken E now token userId = Inr False)
   \<and> (parseInt (ToString (nth_opt (decoded_fields token) 0)) = None \<longrightarrow>
          verifyCsrfToken E now token userId = Inr False)
   \<and> (nth_opt (decoded_fields token) 2 = None \<longrightarrow>
          verifyCsrfToken E now token userId = Inr False)
   \<and> (\<forall>sig. nth_opt (decoded_fields token) 2 = Some sig
          \<and> length sig \<noteq> length (digest_hex (hmac_sha256 E (CSRF_SECRET E)
                (ToString (nth_opt (decoded_fields token) 0) @ '':''
                   @ ToString (nth_opt (decoded_fields token) 1))))
          \<longrightarrow> verifyCsrfToken E now token userId = Inr False)
   \<and> (\<exists>r. verifyToken E now jwt = Inr r)
   \<and> (\<forall>e. jwt_verify E now jwt (JWT_SECRET E) = Inl e \<longrightarrow> verifyToken E now jwt = Inr None)"
proof (intro conjI allI impI)
  show "\<exists>b. verifyCsrfToken E now token userId = Inr b"
    by (cases "verifyCsrfToken_try E now token userId")
       (auto simp add: verifyCsrfToken_def try_catch_def)
next
  fix e
  assume "verifyCsrfToken_try E now token userId = Inl e"
  then show "verifyCsrfToken E now token userId = Inr False"
    by (simp add: verifyCsrfToken_def try_catch_def)
next
  assume "parseInt (ToString (nth_opt (decoded_fields token) 0)) = None"
  then show "verifyCsrfToken E now token userId = Inr False"
    by (simp add: verifyCsrfToken_def verifyCsrfToken_try_def try_catch_def Let_def)
next
  assume "nth_opt (decoded_fields token) 2 = None"
  then show "verifyCsrfToken E now token userId = Inr False"
    by (simp add: verifyCsrfToken_def verifyCsrfToken_try_def try_catch_def Let_def
        Buffer_from_def)
next
  fix sig
  assume "nth_opt (decoded_fields token) 2 = Some sig
      \<and> length sig \<noteq> length (digest_hex (hmac_sha256 E (CSRF_SECRET E)
            (ToString (nth_opt (decoded_fields token) 0) @ '':''
               @ ToString (nth_opt (decoded_fields token) 1))))"
  then show "verifyCsrfToken E now token userId = Inr False"
    by (simp add: verifyCsrfToken_def verifyCsrfToken_try_def try_catch_def Let_def
        Buffer_from_def timingSafeEqual_def)
next
  show "\<exists>r. verifyToken E now jwt = Inr r"
    by (cases "jwt_verify E now jwt (JWT_SECRET E)")
       (auto simp add: verifyToken_def try_catch_def)
next
  fix e
  assume "jwt_verify E now jwt (JWT_SECRET E) = Inl e"
  then show "verifyToken E now jwt = Inr None"
    by (simp add: verifyToken_def try_catch_def)
qed

theorem verification_never_throws_witness:
  "verifyCsrfToken_try demo_env 1000 (Buffer_toString_base64 ''5:1000:abcd'') 5 = Inl RangeError
   \<and> verifyCsrfToken demo_env 1000 (Buffer_toString_base64 ''5:1000:abcd'') 5 = Inr False
   \<and> jwt_verify demo_env 1000 ''not.a.jwt'' (JWT_SECRET demo_env) = Inl JsonWebTokenError
   \<and> verifyToken demo_env 1000 ''not.a.jwt'' = Inr None"
proof -
  have f: "decoded_fields (Buffer_toString_base64 ''5:1000:abcd'') = [''5'', ''1000'', ''abcd'']"
    by (simp add: decoded_fields_ascii ascii_def)
  have len: "length (digest_hex (hmac_sha256 demo_env (CSRF_SECRET demo_env) ''5:1000'')) = 64"
    by (simp add: demo_digest demo_signature_def)
  have thrown:
    "verifyCsrfToken_try demo_env 1000 (Buffer_toString_base64 ''5:1000:abcd'') 5 = Inl RangeError"
    using len
    by (simp add: verifyCsrfToken_try_def f nth_opt_def ToString_def demo_parseInt
        Buffer_from_def timingSafeEqual_def Let_def)
  have jwt: "jwt_verify demo_env 1000 ''not.a.jwt'' (JWT_SECRET demo_env) = Inl JsonWebTokenError"
    by (simp add: jwt_verify_def demo_env_def)
  from verification_never_throws
    [where E = demo_env and now = 1000 and token = "Buffer_toString_base64 ''5:1000:abcd''"
       and userId = 5 and jwt = "''not.a.jwt''"]
    thrown jwt
  show ?thesis by simp
qed

section \<open>Session tokens and the user of a request\<close>

lemma verifyToken_Nil: "verifyToken E now [] = Inr None"
  by (simp add: verifyToken_def try_catch_def jwt_verify_def)

text \<open>The serialisation of \<open>serial_env\<close> reads back what it wrote.\<close>

lemma takeWhile_before_sep:
  "sep \<notin> set a \<Longrightarrow> takeWhile (\<lambda>c. c \<noteq> sep) (a @ sep # r) = a"
  by (induction a) auto

lemma get_int_put_int: "get_int (put_int n @ r) = Some (n, r)"
proof -
  have "CHR '':'' \<notin> set (Number_toString n)"
    using Number_toString_token_chars by (rule token_chars_no_colon)
  then have "takeWhile (\<lambda>c. c \<noteq> CHR '':'') (Number_toString n @ CHR '':'' # r) = Number_toString n"
    by (rule takeWhile_before_sep)
  then show ?thesis
    by (simp add: get_int_def put_int_def parseInt_Number_toString)
qed

lemma get_string_put_string: "get_string (put_string s @ r) = Some (s, r)"
  by (simp add: get_string_def put_string_def get_int_put_int)

lemma get_exp_put: 
  "get_exp (case x of None \<Rightarrow> ''N'' | Some e \<Rightarrow> ''S'' @ put_int e) = Some x"
  using get_int_put_int [of _ "[]"]
  by (cases x) (simp_all add: get_exp_def)

lemma get_payload_put_payload: "get_payload (put_payload p @ r) = Some p"
proof -
  have is_host: "((if is_host p then CHR ''1'' else CHR ''0'') = CHR ''1'') = is_host p"
    by simp
  have "get_exp ((case exp p of None \<Rightarrow> ''N'' | Some e \<Rightarrow> ''S'' @ put_int e) @ r) = Some (exp p)"
    using get_int_put_int by (cases "exp p") (simp_all add: get_exp_def)
  then show ?thesis
    using is_host
    by (cases "is_host p")
       (simp_all add: get_payload_def put_payload_def get_int_put_int get_string_put_string)
qed

lemma serial_open_serial_sign: "serial_open (serial_sign payload secret) secret = Some payload"
  by (simp add: serial_open_def serial_sign_def get_payload_put_payload)

lemma serial_sign_not_Nil: "serial_sign payload secret \<noteq> []"
  by (simp add: serial_sign_def)

lemma serial_env_reads_back:
  "jws_sign serial_env payload (JWT_SECRET serial_env) \<noteq> []
   \<and> jws_open serial_env (jws_sign serial_env payload (JWT_SECRET serial_env))
        (JWT_SECRET serial_env) = Some payload"
  by (simp add: serial_env_def serial_open_serial_sign serial_sign_not_Nil)

lemma serial_token_example:
  "generateToken serial_env 1000 demo_user =
     ''5:5:a@b.c5:alice01:S604801:.42434445464748494a4b4c4d4e4f505152535455565758595a5b5c5d5e5f6061''"
  by (simp add: generateToken_def jwt_sign_def jwt_claims_def token_payload_def demo_user_def
      serial_env_def serial_sign_def put_payload_def put_string_def put_int_def
      Number_toString_def digit_chars.simps demo_env_def digest_hex_def hex_digit_def
      char_of_eq_iff upt_32)

text \<open>
  C5. A session token issued for an identity and verified before its expiry (seven days
  after issue, compared in whole seconds) gives a payload with the id, the email and the
  user name of that identity; verified at or after the expiry it gives \<open>null\<close>. The
  assumption is about the library alone: signing with the session secret gives a token
  that is not empty and from which the same secret reads the signed claims back, whatever
  the claims are. Which claims the token of an identity carries, and when it expires, is
  what \<open>generateToken\<close> and \<open>jwt.sign\<close> make of the identity.
\<close>

theorem session_token_roundtrip:
  assumes codec: "\<And>payload.
      jws_sign E payload (JWT_SECRET E) \<noteq> []
      \<and> jws_open E (jws_sign E payload (JWT_SECRET E)) (JWT_SECRET E) = Some payload"
  shows "(now' div 1000 < now div 1000 + 604800 \<longrightarrow>
            (\<exists>p. verifyToken E now' (generateToken E now u) = Inr (Some p)
                 \<and> id' p = user_id u \<and> email p = user_email u
                 \<and> username p = user_username u))
       \<and> (now div 1000 + 604800 \<le> now' div 1000 \<longrightarrow>
            verifyToken E now' (generateToken E now u) = Inr None)"
proof -
  let ?claims = "jwt_claims now (token_payload u) (7 * 24 * 60 * 60)"
  have token: "generateToken E now u = jws_sign E ?claims (JWT_SECRET E)"
    by (simp add: generateToken_def jwt_sign_def)
  have opened: "jws_open E (generateToken E now u) (JWT_SECRET E) = Some ?claims"
    and not_empty: "generateToken E now u \<noteq> []"
    using codec [of ?claims] by (simp_all add: token)
  have expiry: "exp ?claims = Some (now div 1000 + 604800)"
    by (simp add: jwt_claims_def)
  have fields: "id' ?claims = user_id u" "email ?claims = user_email u"
    "username ?claims = user_username u"
    by (simp_all add: jwt_claims_def token_payload_def)
  have verified: "jwt_verify E now' (generateToken E now u) (JWT_SECRET E) =
      (if now div 1000 + 604800 \<le> now' div 1000 then Inl TokenExpiredError else Inr ?claims)"
    using opened not_empty expiry by (simp add: jwt_verify_def)
  show ?thesis
    using fields by (simp add: verifyToken_def try_catch_def verified)
qed

theorem session_token_roundtrip_witness:
  "(\<forall>payload. jws_sign serial_env payload (JWT_SECRET serial_env) \<noteq> []
      \<and> jws_open serial_env (jws_sign serial_env payload (JWT_SECRET serial_env))
           (JWT_SECRET serial_env) = Some payload)
   \<and> (\<exists>p. verifyToken serial_env 604800999 (generateToken serial_env 1000 demo_user)
            = Inr (Some p)
          \<and> id' p = 5 \<and> email p = ''a@b.c'' \<and> username p = ''alice'')
   \<and> verifyToken serial_env 604801000 (generateToken serial_env 1000 demo_user) = Inr None"
  using session_token_roundtrip [of serial_env 604800999 1000 demo_user, OF serial_env_reads_back]
    session_token_roundtrip [of serial_env 604801000 1000 demo_user, OF serial_env_reads_back]
    serial_env_reads_back
  by (simp add: demo_user_def)

text \<open>
  C9. When the request carries an \<open>auth_token\<close> cookie with a non-empty value,
  \<open>getUserFromRequest\<close> answers with the verification of that value and does not look at
  the \<open>Authorization\<close> header: a cookie value that fails verification gives \<open>null\<close>, also
  beside a valid Bearer token.
\<close>

theorem cookie_decides_before_header:
  assumes "cookies request ''auth_token'' = Some token" and "token \<noteq> []"
  shows "getUserFromRequest E now request = verifyToken E now token
       \<and> (verifyToken E now token = Inr None \<longrightarrow> getUserFromRequest E now request = Inr None)"
  using assms by (simp add: getUserFromRequest_def truthy_def Let_def)

theorem cookie_decides_before_header_witness:
  "cookies request_bad_cookie ''auth_token'' = Some ''garbage''
   \<and> verifyToken demo_env 1000 ''garbage'' = Inr None
   \<and> verifyToken demo_env 1000 ''header.payload.signature'' = Inr (Some demo_claims)
   \<and> getUserFromRequest demo_env 1000 request_bad_cookie = Inr None"
proof -
  have c: "cookies request_bad_cookie ''auth_token'' = Some ''garbage''"
    by (simp add: request_bad_cookie_def)
  have n: "''garbage'' \<noteq> []"
    by simp
  from cookie_decides_before_header [OF c n, of demo_env 1000] c show ?thesis
    by (simp add: demo_verifyToken)
qed

text \<open>
  An \<open>auth_token\<close> cookie that is present with the empty value fails verification, and
  the request is still answered from its Bearer token.
\<close>

theorem empty_cookie_falls_back_to_header:
  "cookies request_empty_cookie ''auth_token'' = Some []
   \<and> verifyToken demo_env 1000 [] = Inr None
   \<and> getUserFromRequest demo_env 1000 request_empty_cookie = Inr (Some demo_claims)"
  by (simp add: request_empty_cookie_def getUserFromRequest_def truthy_def startsWith_def
      demo_verifyToken Let_def)

section \<open>The guards\<close>

lemma startsWith_append:
  assumes "startsWith h p"
  shows "h = p @ drop (length p) h"
proof -
  have "h = take (length p) h @ drop (length p) h" by simp
  with assms show ?thesis by (simp add: startsWith_def)
qed

lemma js_replace_prefix:
  assumes "startsWith h p" and "p \<noteq> []"
  shows "js_replace p rep h = rep @ drop (length p) h"
proof (cases h)
  case Nil
  with assms show ?thesis by (simp add: startsWith_def)
next
  case (Cons c cs)
  with assms show ?thesis by simp
qed

lemma bearer_token_field:
  assumes "startsWith h ''Bearer ''" and "js_split CHR '' '' h = b # token # rest"
    and "token \<noteq> []"
  shows "drop (length ''Bearer '') h \<noteq> []"
proof
  assume "drop (length ''Bearer '') h = []"
  with startsWith_append [OF assms(1)] have "h = ''Bearer ''" by simp
  then have "js_split CHR '' '' h = [''Bearer'', []]" by simp
  with assms(2,3) show False by simp
qed

text \<open>
  A request that \<open>getUserFromRequest\<close> resolves to a user carries a session token that
  the middleware sees, in the cookie or after \<open>Bearer \<close> in the header.
\<close>

lemma authenticated_has_token:
  assumes "getUserFromRequest E now request = Inr (Some user)"
  shows "truthy (js_or (cookies request ''auth_token'')
           (map_option (js_replace ''Bearer '' []) (headers request ''authorization'')))"
proof (cases "truthy (cookies request ''auth_token'')")
  case True
  then show ?thesis by (simp add: js_or_def)
next
  case False
  with assms obtain h b token rest where h: "headers request ''authorization'' = Some h"
    and p: "startsWith h ''Bearer ''"
    and s: "js_split CHR '' '' h = b # token # rest"
    and v: "verifyToken E now token = Inr (Some user)"
    by (auto simp add: getUserFromRequest_def Let_def split: option.splits if_splits list.splits)
  from v have "token \<noteq> []"
    by (auto simp add: verifyToken_Nil)
  with p s have "drop (length ''Bearer '') h \<noteq> []"
    by (rule bearer_token_field)
  moreover have "js_replace ''Bearer '' [] h = [] @ drop (length ''Bearer '') h"
    using p by (rule js_replace_prefix) simp
  ultimately show ?thesis
    using False h by (simp add: js_or_def truthy_def)
qed

text \<open>
  C6. For a mutation request (POST, PUT, DELETE, PATCH) of an authenticated user:
  \<open>validateCsrf\<close> accepts a token that is valid for the user's id and carried only in the
  \<open>csrf_token\<close> cookie, answers 403 "CSRF token missing" when neither the header nor the
  cookie carries a token, and answers 403 "Invalid CSRF token" when the token it takes
  (the header first, else the cookie) fails verification. The middleware, which gates the
  \<open>/api/\<close> paths, reads the \<open>X-CSRF-Token\<close> header only: on a non-exempt path it answers
  403 "CSRF token required" without that header, whatever the cookie carries, and with
  the header it lets the request pass without verifying the token.
\<close>

theorem csrf_token_carriers:
  assumes "toUpperCase (method' request) \<in> set [''POST'', ''PUT'', ''DELETE'', ''PATCH'']"
    and "getUserFromRequest E now request = Inr (Some user)"
  shows "(\<not> truthy (headers request ''x-csrf-token'')
          \<and> cookies request ''csrf_token'' = Some tok
          \<and> verifyCsrfToken E now tok (id' user) = Inr True
          \<longrightarrow> validateCsrf E now request = Inr None)
       \<and> (\<not> truthy (headers request ''x-csrf-token'')
          \<and> \<not> truthy (cookies request ''csrf_token'')
          \<longrightarrow> validateCsrf E now request = Inr (Some (errorResponse ''CSRF token missing'' 403)))
       \<and> (js_or (headers request ''x-csrf-token'') (cookies request ''csrf_token'') = Some tok'
          \<and> tok' \<noteq> [] \<and> verifyCsrfToken E now tok' (id' user) = Inr False
          \<longrightarrow> validateCsrf E now request = Inr (Some (errorResponse ''Invalid CSRF token'' 403)))
       \<and> (startsWith (pathname request) ''/api/''
          \<and> \<not> path_in csrfExemptPaths (pathname request)
          \<and> \<not> truthy (headers request ''x-csrf-token'')
          \<longrightarrow> middleware request = NextResponse_json ''CSRF token required'' 403)
       \<and> (startsWith (pathname request) ''/api/''
          \<and> truthy (headers request ''x-csrf-token'')
          \<longrightarrow> middleware request = NextResponse_next)"
proof (intro conjI impI)
  assume a: "\<not> truthy (headers request ''x-csrf-token'')
      \<and> cookies request ''csrf_token'' = Some tok
      \<and> verifyCsrfToken E now tok (id' user) = Inr True"
  then have "tok \<noteq> []"
    by (auto simp add: verifyCsrfToken_Nil)
  with a assms show "validateCsrf E now request = Inr None"
    by (simp add: validateCsrf_def js_or_def truthy_def Let_def)
next
  assume "\<not> truthy (headers request ''x-csrf-token'')
      \<and> \<not> truthy (cookies request ''csrf_token'')"
  with assms show "validateCsrf E now request
      = Inr (Some (errorResponse ''CSRF token missing'' 403))"
    by (simp add: validateCsrf_def js_or_def Let_def)
next
  assume "js_or (headers request ''x-csrf-token'') (cookies request ''csrf_token'') = Some tok'
      \<and> tok' \<noteq> [] \<and> verifyCsrfToken E now tok' (id' user) = Inr False"
  with assms show "validateCsrf E now request
      = Inr (Some (errorResponse ''Invalid CSRF token'' 403))"
    by (simp add: validateCsrf_def truthy_def Let_def)
next
  assume "startsWith (pathname request) ''/api/''
      \<and> \<not> path_in csrfExemptPaths (pathname request)
      \<and> \<not> truthy (headers request ''x-csrf-token'')"
  with assms(1) authenticated_has_token [OF assms(2)]
  show "middleware request = NextResponse_json ''CSRF token required'' 403"
    by (simp add: middleware_def Let_def)
next
  assume "startsWith (pathname request) ''/api/''
      \<and> truthy (headers request ''x-csrf-token'')"
  with authenticated_has_token [OF assms(2)]
  show "middleware request = NextResponse_next"
    by (simp add: middleware_def Let_def)
qed

theorem csrf_token_carriers_witness:
  "validateCsrf demo_env 1000 request_cookie_only = Inr None
   \<and> middleware request_cookie_only = NextResponse_json ''CSRF token required'' 403
   \<and> validateCsrf demo_env 1000 request_no_csrf
       = Inr (Some (errorResponse ''CSRF token missing'' 403))
   \<and> validateCsrf demo_env 1000 request_bad_header
       = Inr (Some (errorResponse ''Invalid CSRF token'' 403))
   \<and> middleware request_bad_header = NextResponse_next"
proof -
  have id5: "id' demo_claims = 5"
    by (simp add: demo_claims_def)
  have other: "verifyCsrfToken demo_env 1000 (generateCsrfToken demo_env 1000 6) 5 = Inr False"
    by (simp add: verifyCsrfToken_generateCsrfToken)
  have hdr: "truthy (Some (generateCsrfToken demo_env 1000 6))"
    by (simp add: truthy_def generateCsrfToken_not_Nil)
  from csrf_token_carriers [OF demo_requests_mutation(1) demo_requests_authenticated(1),
      where tok = demo_csrf_token]
    csrf_token_carriers [OF demo_requests_mutation(2) demo_requests_authenticated(2)]
    csrf_token_carriers [OF demo_requests_mutation(3) demo_requests_authenticated(3),
      where tok' = "generateCsrfToken demo_env 1000 6"]
    id5 other hdr demo_csrf_token_valid demo_paths
  show ?thesis
    by (simp add: request_cookie_only_def request_no_csrf_def request_bad_header_def
        truthy_def js_or_def generateCsrfToken_not_Nil)
qed

text \<open>
  A mutation request of an authenticated user on a non-exempt path, with a valid token in
  the \<open>csrf_token\<close> cookie and no \<open>X-CSRF-Token\<close> header, gets 403 from the middleware.
\<close>

theorem cookie_only_token_stopped_by_middleware:
  "getUserFromRequest demo_env 1000 request_cookie_only = Inr (Some demo_claims)
   \<and> id' demo_claims = 5
   \<and> headers request_cookie_only ''x-csrf-token'' = None
   \<and> cookies request_cookie_only ''csrf_token'' = Some demo_csrf_token
   \<and> verifyCsrfToken demo_env 1000 demo_csrf_token 5 = Inr True
   \<and> middleware request_cookie_only = NextResponse_json ''CSRF token required'' 403"
proof -
  have "middleware request_cookie_only = NextResponse_json ''CSRF token required'' 403"
    using demo_paths
    by (simp add: middleware_def request_cookie_only_def js_or_def truthy_def
        toUpperCase_def ascii_upper_def Let_def)
  then show ?thesis
    using demo_requests_authenticated(1) demo_csrf_token_valid
    by (simp add: demo_claims_def request_cookie_only_def)
qed

end
